theory Spec2Isabelle
  imports Complex_Main "HOL-Library.Sublist" "HOL-Library.AList"
begin

section \<open>JavaScript values\<close>

text \<open>
  The program is one file, \<^verbatim>\<open>server.js\<close>: an Express application over the in-memory
  array \<^verbatim>\<open>products\<close>. Request bodies arrive as parsed JSON, so a field of a body can
  hold any JSON value; a field that is missing reads as \<^verbatim>\<open>undefined\<close>.

  Numbers are modelled as exact rationals: every JSON numeral denotes one. The rounding
  of IEEE doubles, \<^verbatim>\<open>NaN\<close> and the infinities are outside the model. Strings are
  sequences of 8-bit characters, read as the code units below 256 (Latin-1), on which
  white space and lower-casing are defined as JavaScript defines them.
\<close>

datatype jsval =
    JUndefined
  | JNull
  | JBool bool
  | JNum rat
  | JStr string
  | JArr "jsval list"
  | JObj "(string \<times> jsval) list"

datatype jstype = TUndefined | TObject | TBoolean | TNumber | TString

text \<open>The operator \<^verbatim>\<open>typeof\<close>.\<close>

fun typeof :: "jsval \<Rightarrow> jstype" where
  "typeof JUndefined = TUndefined"
| "typeof JNull = TObject"
| "typeof (JBool b) = TBoolean"
| "typeof (JNum r) = TNumber"
| "typeof (JStr s) = TString"
| "typeof (JArr xs) = TObject"
| "typeof (JObj kvs) = TObject"

text \<open>Truthiness, as \<^verbatim>\<open>!v\<close> and \<^verbatim>\<open>v || d\<close> read it.\<close>

fun truthy :: "jsval \<Rightarrow> bool" where
  "truthy JUndefined = False"
| "truthy JNull = False"
| "truthy (JBool b) = b"
| "truthy (JNum r) = (r \<noteq> 0)"
| "truthy (JStr s) = (s \<noteq> [])"
| "truthy (JArr xs) = True"
| "truthy (JObj kvs) = True"

subsection \<open>Strings\<close>

text \<open>
  White space of \<^verbatim>\<open>String.prototype.trim\<close> among the code units below 256: TAB, LF, VT,
  FF, CR, SPACE and NO-BREAK SPACE.
\<close>

definition is_ws :: "char \<Rightarrow> bool" where
  "is_ws c = (of_char c \<in> {9, 10, 11, 12, 13, 32, 160 :: nat})"

definition trim :: "string \<Rightarrow> string" where
  "trim s = rev (dropWhile is_ws (rev (dropWhile is_ws s)))"

text \<open>
  \<^verbatim>\<open>String.prototype.toLowerCase\<close> on the same range: A-Z and the accented capitals
  U+00C0-U+00DE (without the multiplication sign U+00D7) move up by 32.
\<close>

definition lower_char :: "char \<Rightarrow> char" where
  "lower_char c =
     (let n = of_char c :: nat in
      if (65 \<le> n \<and> n \<le> 90) \<or> (192 \<le> n \<and> n \<le> 222 \<and> n \<noteq> 215)
      then char_of (n + 32) else c)"

definition toLowerCase :: "string \<Rightarrow> string" where
  "toLowerCase s = map lower_char s"

text \<open>\<^verbatim>\<open>Array.prototype.join\<close> on an array of strings.\<close>

fun js_join :: "string \<Rightarrow> string list \<Rightarrow> string" where
  "js_join sep [] = []"
| "js_join sep [x] = x"
| "js_join sep (x # y # ys) = x @ sep @ js_join sep (y # ys)"

text \<open>\<^verbatim>\<open>hay.includes(needle)\<close>: the needle occurs at some position of the hay.\<close>

fun str_includes :: "string \<Rightarrow> string \<Rightarrow> bool" where
  "str_includes [] needle = (needle = [])"
| "str_includes (c # cs) needle = (prefix needle (c # cs) \<or> str_includes cs needle)"

text \<open>
  A method call \<^verbatim>\<open>v.trim()\<close> or \<^verbatim>\<open>v.toLowerCase()\<close> on a value that is not a string
  throws a \<^verbatim>\<open>TypeError\<close> (the property is missing, or the receiver is
  \<^verbatim>\<open>undefined\<close> or \<^verbatim>\<open>null\<close>).
\<close>

section \<open>Error taxonomy\<close>

text \<open>
  The three error classes of the source carry their message. \<open>TypeError\<close> stands for a
  run-time exception of JavaScript itself, which the error responder answers with 500.
\<close>

datatype error =
    NotFoundError string
  | ValidationError string
  | AuthenticationError string
  | TypeError

fun error_name :: "error \<Rightarrow> string" where
  "error_name (NotFoundError m) = ''NotFoundError''"
| "error_name (ValidationError m) = ''ValidationError''"
| "error_name (AuthenticationError m) = ''AuthenticationError''"
| "error_name TypeError = ''Internal Server Error''"

fun error_message :: "error \<Rightarrow> string" where
  "error_message (NotFoundError m) = m"
| "error_message (ValidationError m) = m"
| "error_message (AuthenticationError m) = m"
| "error_message TypeError = ''Something went wrong on the server''"

fun statusCode :: "error \<Rightarrow> nat" where
  "statusCode (NotFoundError m) = 404"
| "statusCode (ValidationError m) = 400"
| "statusCode (AuthenticationError m) = 401"
| "statusCode TypeError = 500"

definition js_trim :: "jsval \<Rightarrow> error + string" where
  "js_trim v = (case v of JStr s \<Rightarrow> Inr (trim s) | _ \<Rightarrow> Inl TypeError)"

definition js_toLowerCase :: "jsval \<Rightarrow> error + string" where
  "js_toLowerCase v = (case v of JStr s \<Rightarrow> Inr (toLowerCase s) | _ \<Rightarrow> Inl TypeError)"

section \<open>Validation middleware\<close>

text \<open>
  \<open>req.body\<close> is the object the JSON body parser produced: a finite map from property
  names to values (empty when no body was sent). Reading a property that is not there
  gives \<^verbatim>\<open>undefined\<close>.
\<close>

type_synonym body = "string \<rightharpoonup> jsval"

definition body_field :: "body \<Rightarrow> string \<Rightarrow> jsval" where
  "body_field b k = (case b k of None \<Rightarrow> JUndefined | Some v \<Rightarrow> v)"

definition name_message :: string where
  "name_message = ''Name is required and must be a non-empty string''"

definition description_message :: string where
  "description_message = ''Description is required and must be a non-empty string''"

definition price_message :: string where
  "price_message = ''Price is required and must be a non-negative number''"

definition category_message :: string where
  "category_message = ''Category is required and must be a non-empty string''"

definition inStock_message :: string where
  "inStock_message = ''inStock is required and must be a boolean''"

text \<open>
  \<^verbatim>\<open>validateProduct\<close> (lines 89-118). Each \<^verbatim>\<open>if\<close> pushes its message on
  \<^verbatim>\<open>errors\<close>; the third disjunct of a test is reached only when the value is a string
  (a number, for the price), as \<^verbatim>\<open>||\<close> evaluates from the left.
\<close>

definition validateProduct :: "body \<Rightarrow> error + unit" where
  "validateProduct b =
     (let name = body_field b ''name'';
          description = body_field b ''description'';
          price = body_field b ''price'';
          category = body_field b ''category'';
          inStock = body_field b ''inStock'';
          errors0 = [];
          errors1 =
            (if \<not> truthy name \<or> typeof name \<noteq> TString
                \<or> (case name of JStr s \<Rightarrow> length (trim s) = 0 | _ \<Rightarrow> False)
             then errors0 @ [name_message] else errors0);
          errors2 =
            (if \<not> truthy description \<or> typeof description \<noteq> TString
                \<or> (case description of JStr s \<Rightarrow> length (trim s) = 0 | _ \<Rightarrow> False)
             then errors1 @ [description_message] else errors1);
          errors3 =
            (if price = JUndefined \<or> typeof price \<noteq> TNumber
                \<or> (case price of JNum r \<Rightarrow> r < 0 | _ \<Rightarrow> False)
             then errors2 @ [price_message] else errors2);
          errors4 =
            (if \<not> truthy category \<or> typeof category \<noteq> TString
                \<or> (case category of JStr s \<Rightarrow> length (trim s) = 0 | _ \<Rightarrow> False)
             then errors3 @ [category_message] else errors3);
          errors5 =
            (if inStock = JUndefined \<or> typeof inStock \<noteq> TBoolean
             then errors4 @ [inStock_message] else errors4)
      in if length errors5 > 0 then Inl (ValidationError (js_join '', '' errors5))
         else Inr ())"

section \<open>The product store\<close>

text \<open>
  A product is a JavaScript object: its own properties, in the order the object literal
  lists them. \<^verbatim>\<open>products\<close> is the array of these objects, in insertion order. Reading
  a property that the object does not have gives \<^verbatim>\<open>undefined\<close>.
\<close>

type_synonym product = "(string \<times> jsval) list"

type_synonym store = "product list"

definition pget :: "product \<Rightarrow> string \<Rightarrow> jsval" where
  "pget p k = (case map_of p k of None \<Rightarrow> JUndefined | Some v \<Rightarrow> v)"

text \<open>The three records the array starts with (lines 12-37).\<close>

definition laptop :: product where
  "laptop =
     [(''id'', JStr ''1''), (''name'', JStr ''Laptop''),
      (''description'', JStr ''High-performance laptop with 16GB RAM''),
      (''price'', JNum 1200), (''category'', JStr ''electronics''),
      (''inStock'', JBool True)]"

definition smartphone :: product where
  "smartphone =
     [(''id'', JStr ''2''), (''name'', JStr ''Smartphone''),
      (''description'', JStr ''Latest model with 128GB storage''),
      (''price'', JNum 800), (''category'', JStr ''electronics''),
      (''inStock'', JBool True)]"

definition coffee_maker :: product where
  "coffee_maker =
     [(''id'', JStr ''3''), (''name'', JStr ''Coffee Maker''),
      (''description'', JStr ''Programmable coffee maker with timer''),
      (''price'', JNum 50), (''category'', JStr ''kitchen''),
      (''inStock'', JBool False)]"

definition initial_products :: store where
  "initial_products = [laptop, smartphone, coffee_maker]"

section \<open>Authentication middleware\<close>

datatype http_method = GET | POST | PUT | DELETE

text \<open>
  \<^verbatim>\<open>authMiddleware\<close> (lines 73-86). The header \<^verbatim>\<open>x-api-key\<close> is a string, or
  \<^verbatim>\<open>undefined\<close> when the request does not carry it.
\<close>

definition authMiddleware :: "http_method \<Rightarrow> string option \<Rightarrow> error + unit" where
  "authMiddleware m apiKey =
     (if m = GET then Inr ()
      else if (case apiKey of None \<Rightarrow> True | Some k \<Rightarrow> k = [])
              \<or> apiKey \<noteq> Some ''your-secret-api-key''
      then Inl (AuthenticationError ''Invalid or missing API key'')
      else Inr ())"

section \<open>Query strings\<close>

text \<open>
  Express parses the query string into \<^verbatim>\<open>req.query\<close>: a parameter is absent, a string,
  an array (a repeated parameter) or an object (a bracketed one).
\<close>

datatype qval = QStr string | QArr "qval list" | QObj "(string \<times> qval) list"

type_synonym query = "string \<rightharpoonup> qval"

fun q_truthy :: "qval option \<Rightarrow> bool" where
  "q_truthy None = False"
| "q_truthy (Some (QStr s)) = (s \<noteq> [])"
| "q_truthy (Some (QArr xs)) = True"
| "q_truthy (Some (QObj kvs)) = True"

fun q_toLowerCase :: "qval option \<Rightarrow> error + string" where
  "q_toLowerCase (Some (QStr s)) = Inr (toLowerCase s)"
| "q_toLowerCase _ = Inl TypeError"

text \<open>
  The string that \<^verbatim>\<open>parseInt\<close> makes of its argument: an array is its elements joined
  by commas, an object is \<^verbatim>\<open>[object Object]\<close>, a missing parameter is
  \<^verbatim>\<open>undefined\<close>.
\<close>

fun q_toString :: "qval \<Rightarrow> string" where
  "q_toString (QStr s) = s"
| "q_toString (QArr xs) = js_join '','' (map q_toString xs)"
| "q_toString (QObj kvs) = ''[object Object]''"

definition arg_toString :: "qval option \<Rightarrow> string" where
  "arg_toString a = (case a of None \<Rightarrow> ''undefined'' | Some v \<Rightarrow> q_toString v)"

text \<open>
  \<^verbatim>\<open>parseInt\<close> with no radix: leading white space is skipped, then a sign, then the
  prefix \<^verbatim>\<open>0x\<close> or \<^verbatim>\<open>0X\<close> selects radix 16; the longest run of digits of the radix is
  the number, and an empty run is \<^verbatim>\<open>NaN\<close>, here \<open>None\<close>. The result is an integer of
  any size (a double rounds beyond 2^53).
\<close>

definition digit_value :: "char \<Rightarrow> nat option" where
  "digit_value c =
     (let n = of_char c :: nat in
      if 48 \<le> n \<and> n \<le> 57 then Some (n - 48)
      else if 97 \<le> n \<and> n \<le> 122 then Some (n - 87)
      else if 65 \<le> n \<and> n \<le> 90 then Some (n - 55)
      else None)"

fun radix_digits :: "nat \<Rightarrow> string \<Rightarrow> nat list" where
  "radix_digits R [] = []"
| "radix_digits R (c # cs) =
     (case digit_value c of
        None \<Rightarrow> []
      | Some d \<Rightarrow> if d < R then d # radix_digits R cs else [])"

definition digits_number :: "nat \<Rightarrow> nat list \<Rightarrow> nat" where
  "digits_number R ds = foldl (\<lambda>acc d. acc * R + d) 0 ds"

definition parseInt :: "string \<Rightarrow> int option" where
  "parseInt input =
     (let s = dropWhile is_ws input;
          sign = (if take 1 s = ''-'' then - 1 else 1 :: int);
          s1 = (if take 1 s = ''+'' \<or> take 1 s = ''-'' then drop 1 s else s);
          hex = (take 2 s1 = ''0x'' \<or> take 2 s1 = ''0X'');
          R = (if hex then 16 else 10);
          s2 = (if hex then drop 2 s1 else s1);
          ds = radix_digits R s2
      in if ds = [] then None else Some (sign * int (digits_number R ds)))"

text \<open>\<^verbatim>\<open>parseInt(x) || d\<close>: \<^verbatim>\<open>NaN\<close> and 0 are falsy.\<close>

definition or_default :: "int option \<Rightarrow> int \<Rightarrow> int" where
  "or_default r d = (case r of None \<Rightarrow> d | Some n \<Rightarrow> if n = 0 then d else n)"

section \<open>Arrays\<close>

text \<open>
  \<^verbatim>\<open>Array.prototype.slice(start, end)\<close>: a negative index counts from the end of the
  array, and both indices are clamped to the array.
\<close>

definition js_slice :: "'a list \<Rightarrow> int \<Rightarrow> int \<Rightarrow> 'a list" where
  "js_slice xs start fin =
     (let len = int (length xs);
          k = (if start < 0 then max (len + start) 0 else min start len);
          final = (if fin < 0 then max (len + fin) 0 else min fin len)
      in take (nat (final - k)) (drop (nat k) xs))"

text \<open>\<^verbatim>\<open>Array.prototype.filter\<close> with a callback that may throw.\<close>

fun filterE :: "('a \<Rightarrow> error + bool) \<Rightarrow> 'a list \<Rightarrow> error + 'a list" where
  "filterE f [] = Inr []"
| "filterE f (x # xs) =
     (case f x of
        Inl e \<Rightarrow> Inl e
      | Inr keep \<Rightarrow>
          (case filterE f xs of
             Inl e \<Rightarrow> Inl e
           | Inr ys \<Rightarrow> Inr (if keep then x # ys else ys)))"

text \<open>\<^verbatim>\<open>Array.prototype.findIndex\<close>; \<open>None\<close> is the result -1.\<close>

fun findIndex :: "('a \<Rightarrow> bool) \<Rightarrow> 'a list \<Rightarrow> nat option" where
  "findIndex P [] = None"
| "findIndex P (x # xs) = (if P x then Some 0 else map_option Suc (findIndex P xs))"

section \<open>Read handlers\<close>

subsection \<open>GET /api/products\<close>

text \<open>
  The pagination object of the answer. \<open>totalFiltered\<close> is its property
  \<^verbatim>\<open>totalProducts\<close>, the length of the filtered array.
\<close>

record list_result =
  listed :: store
  currentPage :: int
  totalPages :: int
  totalFiltered :: nat
  productsPerPage :: int

text \<open>
  Lines 146-181. The category test calls \<^verbatim>\<open>toLowerCase\<close> on the stored category and
  then on the parameter, once for each product; \<^verbatim>\<open>Math.ceil\<close> of the quotient is its
  ceiling (\<open>limit\<close> is never 0).
\<close>

definition list_handler :: "query \<Rightarrow> store \<Rightarrow> error + list_result" where
  "list_handler q products =
     (case (if q_truthy (q ''category'')
            then filterE (\<lambda>product.
                   case js_toLowerCase (pget product ''category'') of
                     Inl e \<Rightarrow> Inl e
                   | Inr a \<Rightarrow>
                       (case q_toLowerCase (q ''category'') of
                          Inl e \<Rightarrow> Inl e
                        | Inr b \<Rightarrow> Inr (a = b))) products
            else Inr products) of
        Inl e \<Rightarrow> Inl e
      | Inr byCategory \<Rightarrow>
          (let filteredProducts =
                 (case q ''inStock'' of
                    None \<Rightarrow> byCategory
                  | Some v \<Rightarrow>
                      (let inStockFilter = (v = QStr ''true'')
                       in filter (\<lambda>product. pget product ''inStock'' = JBool inStockFilter)
                            byCategory));
               page = or_default (parseInt (arg_toString (q ''page''))) 1;
               limit = or_default (parseInt (arg_toString (q ''limit''))) 10;
               startIndex = (page - 1) * limit;
               endIndex = page * limit;
               paginatedProducts = js_slice filteredProducts startIndex endIndex
           in Inr \<lparr> listed = paginatedProducts,
                    currentPage = page,
                    totalPages = \<lceil>rat_of_nat (length filteredProducts) / rat_of_int limit\<rceil>,
                    totalFiltered = length filteredProducts,
                    productsPerPage = limit \<rparr>))"

subsection \<open>GET /api/products/search\<close>

record search_result =
  echoed :: qval
  results :: store
  matches :: nat

definition search_message :: string where
  \<open>search_message = ''Search query parameter "q" is required''\<close>

text \<open>
  Lines 184-201. \<open>echoed\<close>, \<open>results\<close> and \<open>matches\<close> are the properties
  \<^verbatim>\<open>query\<close>, \<^verbatim>\<open>results\<close> and \<^verbatim>\<open>count\<close> of the answer. The description is looked
  at only when the name does not match.
\<close>

definition search_handler :: "query \<Rightarrow> store \<Rightarrow> error + search_result" where
  "search_handler qu products =
     (case qu ''q'' of
        None \<Rightarrow> Inl (ValidationError search_message)
      | Some q \<Rightarrow>
          if \<not> q_truthy (Some q) then Inl (ValidationError search_message)
          else
            (case filterE (\<lambda>product.
                    case js_toLowerCase (pget product ''name'') of
                      Inl e \<Rightarrow> Inl e
                    | Inr n \<Rightarrow>
                        (case q_toLowerCase (Some q) of
                           Inl e \<Rightarrow> Inl e
                         | Inr ql \<Rightarrow>
                             if str_includes n ql then Inr True
                             else
                               (case js_toLowerCase (pget product ''description'') of
                                  Inl e \<Rightarrow> Inl e
                                | Inr d \<Rightarrow>
                                    (case q_toLowerCase (Some q) of
                                       Inl e \<Rightarrow> Inl e
                                     | Inr ql' \<Rightarrow> Inr (str_includes d ql'))))) products of
               Inl e \<Rightarrow> Inl e
             | Inr searchResults \<Rightarrow>
                 Inr \<lparr> echoed = q, results = searchResults,
                       matches = length searchResults \<rparr>))"

subsection \<open>GET /api/products/stats\<close>

text \<open>
  \<^verbatim>\<open>categoryCounts\<close> starts as the object literal \<^verbatim>\<open>{}\<close>, whose prototype is
  \<^verbatim>\<open>Object.prototype\<close>: reading a key that is not an own property finds the inherited
  property of that name, when there is one. The list below gives, for each property of
  \<^verbatim>\<open>Object.prototype\<close>, the string its value turns into under \<^verbatim>\<open>+\<close> (the source text
  of a built-in function, as Node prints it).
\<close>

definition object_prototype :: "(string \<times> string) list" where
  "object_prototype =
     [(''constructor'', ''function Object() { [native code] }''),
      (''__defineGetter__'', ''function __defineGetter__() { [native code] }''),
      (''__defineSetter__'', ''function __defineSetter__() { [native code] }''),
      (''hasOwnProperty'', ''function hasOwnProperty() { [native code] }''),
      (''__lookupGetter__'', ''function __lookupGetter__() { [native code] }''),
      (''__lookupSetter__'', ''function __lookupSetter__() { [native code] }''),
      (''isPrototypeOf'', ''function isPrototypeOf() { [native code] }''),
      (''propertyIsEnumerable'', ''function propertyIsEnumerable() { [native code] }''),
      (''toString'', ''function toString() { [native code] }''),
      (''valueOf'', ''function valueOf() { [native code] }''),
      (''__proto__'', ''[object Object]''),
      (''toLocaleString'', ''function toLocaleString() { [native code] }'')]"

text \<open>
  What a key of \<^verbatim>\<open>categoryCounts\<close> holds: a number, or the string that \<^verbatim>\<open>+ 1\<close>
  builds from a value that is not a number. The object is the list of its own
  properties: an assignment replaces the value of a key that is there and appends a new
  key.
\<close>

datatype counter = Number nat | Text string

text \<open>
  The body of the \<^verbatim>\<open>forEach\<close> (lines 218-221) for a category \<open>c\<close>:
  \<^verbatim>\<open>counts[c] = (counts[c] || 0) + 1\<close>. An inherited value is truthy, so \<^verbatim>\<open>+ 1\<close>
  appends \<^verbatim>\<open>1\<close> to its string; the assignment makes an own property, except for the
  key \<^verbatim>\<open>__proto__\<close>, whose setter ignores a string.
\<close>

definition count_category :: "(string \<times> counter) list \<Rightarrow> string \<Rightarrow> (string \<times> counter) list" where
  "count_category counts c =
     (case map_of counts c of
        Some (Number n) \<Rightarrow> AList.update c (Number (n + 1)) counts
      | Some (Text s) \<Rightarrow>
          AList.update c (if s = [] then Number 1 else Text (s @ ''1'')) counts
      | None \<Rightarrow>
          (case map_of object_prototype c of
             None \<Rightarrow> AList.update c (Number 1) counts
           | Some t \<Rightarrow>
               if c = ''__proto__'' then counts
               else AList.update c (Text (t @ ''1'')) counts))"

text \<open>\<^verbatim>\<open>Math.round\<close> rounds to the nearest integer, a half upwards.\<close>

definition js_round :: "rat \<Rightarrow> rat" where
  "js_round x = rat_of_int \<lfloor>x + 1 / 2\<rfloor>"

record stats_result =
  totalProducts :: nat
  inStockCount :: nat
  outOfStockCount :: nat
  categoryCounts :: "(string \<times> counter) list"
  averagePrice :: rat
  priceRange_min :: rat
  priceRange_max :: rat

definition category_key :: "product \<Rightarrow> string option" where
  "category_key p = (case pget p ''category'' of JStr s \<Rightarrow> Some s | _ \<Rightarrow> None)"

definition price_number :: "product \<Rightarrow> rat option" where
  "price_number p = (case pget p ''price'' of JNum r \<Rightarrow> Some r | _ \<Rightarrow> None)"

text \<open>
  Lines 204-235, for an array whose records all hold a string as category and a number
  as price. On any other array JavaScript would coerce the values; the model gives
  \<open>None\<close> there, and \<open>stats_handler_reachable\<close> below shows that no array the server can
  reach is of that kind.
\<close>

definition stats_handler :: "store \<Rightarrow> stats_result option" where
  "stats_handler products =
     (case (those (map category_key products), those (map price_number products)) of
        (Some categories, Some prices) \<Rightarrow>
          Some \<lparr> totalProducts = length products,
                 inStockCount = length (filter (\<lambda>p. truthy (pget p ''inStock'')) products),
                 outOfStockCount =
                   length (filter (\<lambda>p. \<not> truthy (pget p ''inStock'')) products),
                 categoryCounts = foldl count_category [] categories,
                 averagePrice =
                   (if length products > 0
                    then js_round (foldl (+) 0 prices / rat_of_nat (length products) * 100)
                           / 100
                    else 0),
                 priceRange_min = (case prices of [] \<Rightarrow> 0 | x # xs \<Rightarrow> foldl min x xs),
                 priceRange_max = (case prices of [] \<Rightarrow> 0 | x # xs \<Rightarrow> foldl max x xs) \<rparr>
      | _ \<Rightarrow> None)"

subsection \<open>GET /api/products/:id\<close>

text \<open>
  \<^verbatim>\<open>req.params.id\<close> is the string the route pattern captured, or \<^verbatim>\<open>undefined\<close>.
\<close>

definition param_js :: "string option \<Rightarrow> jsval" where
  "param_js a = (case a of None \<Rightarrow> JUndefined | Some s \<Rightarrow> JStr s)"

definition param_text :: "string option \<Rightarrow> string" where
  "param_text a = (case a of None \<Rightarrow> ''undefined'' | Some s \<Rightarrow> s)"

definition not_found_message :: "string option \<Rightarrow> string" where
  "not_found_message rid = ''Product with ID '' @ param_text rid @ '' not found''"

definition get_handler :: "string option \<Rightarrow> store \<Rightarrow> error + product" where
  "get_handler rid products =
     (case find (\<lambda>p. pget p ''id'' = param_js rid) products of
        None \<Rightarrow> Inl (NotFoundError (not_found_message rid))
      | Some product \<Rightarrow> Inr product)"

section \<open>Write handlers\<close>

text \<open>
  Each handler returns the record it answers with and the array after the call. Every
  exception of a handler is thrown before the array is touched, so an error leaves the
  array as it was. \<open>uuid\<close> is the string that \<^verbatim>\<open>uuidv4()\<close> returns for the request.
\<close>

definition post_handler :: "string \<Rightarrow> body \<Rightarrow> store \<Rightarrow> error + product \<times> store" where
  "post_handler uuid b products =
     (case js_trim (body_field b ''name'') of
        Inl e \<Rightarrow> Inl e
      | Inr name \<Rightarrow>
     (case js_trim (body_field b ''description'') of
        Inl e \<Rightarrow> Inl e
      | Inr description \<Rightarrow>
     (case js_trim (body_field b ''category'') of
        Inl e \<Rightarrow> Inl e
      | Inr category \<Rightarrow>
          (let newProduct =
                 [(''id'', JStr uuid),
                  (''name'', JStr name),
                  (''description'', JStr description),
                  (''price'', body_field b ''price''),
                  (''category'', JStr (toLowerCase category)),
                  (''inStock'', body_field b ''inStock'')]
           in Inr (newProduct, products @ [newProduct])))))"

definition put_handler ::
  "string option \<Rightarrow> body \<Rightarrow> store \<Rightarrow> error + product \<times> store" where
  "put_handler rid b products =
     (case findIndex (\<lambda>p. pget p ''id'' = param_js rid) products of
        None \<Rightarrow> Inl (NotFoundError (not_found_message rid))
      | Some productIndex \<Rightarrow>
     (case js_trim (body_field b ''name'') of
        Inl e \<Rightarrow> Inl e
      | Inr name \<Rightarrow>
     (case js_trim (body_field b ''description'') of
        Inl e \<Rightarrow> Inl e
      | Inr description \<Rightarrow>
     (case js_trim (body_field b ''category'') of
        Inl e \<Rightarrow> Inl e
      | Inr category \<Rightarrow>
          (let updatedProduct =
                 [(''id'', param_js rid),
                  (''name'', JStr name),
                  (''description'', JStr description),
                  (''price'', body_field b ''price''),
                  (''category'', JStr (toLowerCase category)),
                  (''inStock'', body_field b ''inStock'')]
           in Inr (updatedProduct, products[productIndex := updatedProduct]))))))"

definition delete_handler :: "string option \<Rightarrow> store \<Rightarrow> error + product \<times> store" where
  "delete_handler rid products =
     (case findIndex (\<lambda>p. pget p ''id'' = param_js rid) products of
        None \<Rightarrow> Inl (NotFoundError (not_found_message rid))
      | Some productIndex \<Rightarrow>
          Inr (products ! productIndex,
               take productIndex products @ drop (Suc productIndex) products))"

section \<open>Routes and the error responder\<close>

text \<open>
  A request, after the body parser: its method, the segments of its path (the path
  split at the slashes, a trailing slash dropped), the header \<^verbatim>\<open>x-api-key\<close>, the
  parsed query string and the parsed body.
\<close>

record request =
  req_method :: http_method
  req_path :: "string list"
  x_api_key :: "string option"
  req_query :: query
  req_body :: body

text \<open>
  A route pattern is a list of segments: a literal, or a named parameter that matches
  one non-empty segment. Express compares literals without regard to case.
\<close>

datatype segment = Lit string | Param string

datatype handler =
    Root
  | ListProducts
  | SearchProducts
  | ProductStats
  | GetProduct
  | CreateProduct
  | UpdateProduct
  | DeleteProduct

text \<open>The routes in the order the source registers them (lines 130-306).\<close>

definition routes :: "(http_method \<times> segment list \<times> handler) list" where
  "routes =
     [(GET, [], Root),
      (GET, [Lit ''api'', Lit ''products''], ListProducts),
      (GET, [Lit ''api'', Lit ''products'', Lit ''search''], SearchProducts),
      (GET, [Lit ''api'', Lit ''products'', Lit ''stats''], ProductStats),
      (GET, [Lit ''api'', Lit ''products'', Param ''id''], GetProduct),
      (POST, [Lit ''api'', Lit ''products''], CreateProduct),
      (PUT, [Lit ''api'', Lit ''products'', Param ''id''], UpdateProduct),
      (DELETE, [Lit ''api'', Lit ''products'', Param ''id''], DeleteProduct)]"

fun match_path :: "segment list \<Rightarrow> string list \<Rightarrow> (string \<times> string) list option" where
  "match_path [] [] = Some []"
| "match_path (Lit l # ps) (s # ss) =
     (if toLowerCase s = toLowerCase l then match_path ps ss else None)"
| "match_path (Param n # ps) (s # ss) =
     (if s = [] then None else map_option ((#) (n, s)) (match_path ps ss))"
| "match_path _ _ = None"

text \<open>The first route, in registration order, whose method and pattern match.\<close>

fun find_route ::
  "(http_method \<times> segment list \<times> handler) list \<Rightarrow> http_method \<Rightarrow> string list
     \<Rightarrow> (handler \<times> (string \<times> string) list) option" where
  "find_route [] m path = None"
| "find_route ((m', pattern, h) # rs) m path =
     (if m' = m
      then (case match_path pattern path of
              Some params \<Rightarrow> Some (h, params)
            | None \<Rightarrow> find_route rs m path)
      else find_route rs m path)"

datatype reply =
    Welcome
  | Listing list_result
  | SearchResults search_result
  | Statistics "stats_result option"
  | Product product
  | Created product
  | Updated product
  | Deleted product
  | Failure string string nat
  | NoRoute http_method "string list"

text \<open>
  The middleware chain of each route: \<^verbatim>\<open>authMiddleware\<close> and \<^verbatim>\<open>validateProduct\<close>
  where the source lists them, then the handler. The first error ends the chain.
\<close>

definition run_route ::
  "handler \<Rightarrow> string \<Rightarrow> (string \<times> string) list \<Rightarrow> request \<Rightarrow> store
     \<Rightarrow> error + (nat \<times> reply) \<times> store" where
  "run_route h uuid params req products =
     (case h of
        Root \<Rightarrow> Inr ((200, Welcome), products)
      | ListProducts \<Rightarrow>
          (case list_handler (req_query req) products of
             Inl e \<Rightarrow> Inl e
           | Inr r \<Rightarrow> Inr ((200, Listing r), products))
      | SearchProducts \<Rightarrow>
          (case search_handler (req_query req) products of
             Inl e \<Rightarrow> Inl e
           | Inr r \<Rightarrow> Inr ((200, SearchResults r), products))
      | ProductStats \<Rightarrow> Inr ((200, Statistics (stats_handler products)), products)
      | GetProduct \<Rightarrow>
          (case get_handler (map_of params ''id'') products of
             Inl e \<Rightarrow> Inl e
           | Inr p \<Rightarrow> Inr ((200, Product p), products))
      | CreateProduct \<Rightarrow>
          (case authMiddleware (req_method req) (x_api_key req) of
             Inl e \<Rightarrow> Inl e
           | Inr u \<Rightarrow>
          (case validateProduct (req_body req) of
             Inl e \<Rightarrow> Inl e
           | Inr u' \<Rightarrow>
          (case post_handler uuid (req_body req) products of
             Inl e \<Rightarrow> Inl e
           | Inr (p, products') \<Rightarrow> Inr ((201, Created p), products'))))
      | UpdateProduct \<Rightarrow>
          (case authMiddleware (req_method req) (x_api_key req) of
             Inl e \<Rightarrow> Inl e
           | Inr u \<Rightarrow>
          (case validateProduct (req_body req) of
             Inl e \<Rightarrow> Inl e
           | Inr u' \<Rightarrow>
          (case put_handler (map_of params ''id'') (req_body req) products of
             Inl e \<Rightarrow> Inl e
           | Inr (p, products') \<Rightarrow> Inr ((200, Updated p), products'))))
      | DeleteProduct \<Rightarrow>
          (case authMiddleware (req_method req) (x_api_key req) of
             Inl e \<Rightarrow> Inl e
           | Inr u \<Rightarrow>
          (case delete_handler (map_of params ''id'') products of
             Inl e \<Rightarrow> Inl e
           | Inr (p, products') \<Rightarrow> Inr ((200, Deleted p), products'))))"

text \<open>
  The error responder (lines 309-337) answers an error with its status, name and
  message, and the last middleware (lines 340-346) answers a request that no route
  claimed with 404. Neither touches the array.
\<close>

definition respond_error :: "error \<Rightarrow> nat \<times> reply" where
  "respond_error e = (statusCode e, Failure (error_name e) (error_message e) (statusCode e))"

definition handle :: "string \<Rightarrow> request \<Rightarrow> store \<Rightarrow> (nat \<times> reply) \<times> store" where
  "handle uuid req products =
     (case find_route routes (req_method req) (req_path req) of
        None \<Rightarrow> ((404, NoRoute (req_method req) (req_path req)), products)
      | Some (h, params) \<Rightarrow>
          (case run_route h uuid params req products of
             Inl e \<Rightarrow> (respond_error e, products)
           | Inr answer \<Rightarrow> answer))"

text \<open>The arrays the server can hold: the initial one, and any array after a request.\<close>

inductive reachable :: "store \<Rightarrow> bool" where
  start: "reachable initial_products"
| step: "reachable products \<Longrightarrow> reachable (snd (handle uuid req products))"

section \<open>The rules of the specification\<close>

subsection \<open>The field rules, as the specification words them\<close>

text \<open>
  A textual field must be present, be a string, and have non-white-space content. The
  price must be present, be a number and be at least 0. \<open>inStock\<close> must be present and be
  a boolean.
\<close>

definition spec_text_rule :: "jsval \<Rightarrow> bool" where
  "spec_text_rule v = (case v of JStr s \<Rightarrow> \<exists>c \<in> set s. \<not> is_ws c | _ \<Rightarrow> False)"

definition spec_price_rule :: "jsval \<Rightarrow> bool" where
  "spec_price_rule v = (case v of JNum r \<Rightarrow> 0 \<le> r | _ \<Rightarrow> False)"

definition spec_inStock_rule :: "jsval \<Rightarrow> bool" where
  "spec_inStock_rule v = (case v of JBool x \<Rightarrow> True | _ \<Rightarrow> False)"

text \<open>The messages of the violated rules, each rule looked at on its own.\<close>

definition spec_violations :: "body \<Rightarrow> string list" where
  "spec_violations b =
     (if spec_text_rule (body_field b ''name'') then [] else [name_message]) @
     (if spec_text_rule (body_field b ''description'') then [] else [description_message]) @
     (if spec_price_rule (body_field b ''price'') then [] else [price_message]) @
     (if spec_text_rule (body_field b ''category'') then [] else [category_message]) @
     (if spec_inStock_rule (body_field b ''inStock'') then [] else [inStock_message])"

text \<open>A stored record satisfies the rules when its five fields do.\<close>

definition spec_valid_product :: "product \<Rightarrow> bool" where
  "spec_valid_product p =
     (spec_text_rule (pget p ''name'') \<and> spec_text_rule (pget p ''description'')
      \<and> spec_price_rule (pget p ''price'') \<and> spec_text_rule (pget p ''category'')
      \<and> spec_inStock_rule (pget p ''inStock''))"

definition valid_store :: "store \<Rightarrow> bool" where
  "valid_store products = (\<forall>p \<in> set products. spec_valid_product p)"


section \<open>Example requests\<close>

text \<open>
  A request that creates a product. Its body carries two properties that are not
  product fields, \<open>id\<close> and \<open>admin\<close>; \<open>mug\<close> is the record the server stores for it when
  \<^verbatim>\<open>uuidv4()\<close> returns \<open>u-1\<close>.
\<close>

definition mug_request :: request where
  "mug_request =
     \<lparr> req_method = POST, req_path = [''api'', ''products''],
       x_api_key = Some ''your-secret-api-key'', req_query = Map.empty,
       req_body = map_of [(''name'', JStr '' Mug ''), (''description'', JStr ''Holds tea''),
                          (''price'', JNum 3), (''category'', JStr '' Kitchen ''),
                          (''inStock'', JBool False), (''id'', JStr ''7''),
                          (''admin'', JBool True)] \<rparr>"

definition mug :: product where
  "mug = [(''id'', JStr ''u-1''), (''name'', JStr ''Mug''), (''description'', JStr ''Holds tea''),
          (''price'', JNum 3), (''category'', JStr ''kitchen''), (''inStock'', JBool False)]"

text \<open>
  The record a create or an update stores, as the specification words sanitization: name
  and description trimmed, category trimmed and lower-cased, price and \<open>inStock\<close> as the
  body has them, under the given id.
\<close>

definition spec_sanitized :: "jsval \<Rightarrow> string \<Rightarrow> string \<Rightarrow> string \<Rightarrow> body \<Rightarrow> product" where
  "spec_sanitized i n d c b =
     [(''id'', i), (''name'', JStr (trim n)), (''description'', JStr (trim d)),
      (''price'', body_field b ''price''), (''category'', JStr (toLowerCase (trim c))),
      (''inStock'', body_field b ''inStock'')]"

text \<open>The six documented fields of a product.\<close>

definition product_fields :: "string list" where
  "product_fields = [''id'', ''name'', ''description'', ''price'', ''category'', ''inStock'']"




text \<open>The example request with a wrong key.\<close>

definition unkeyed_request :: request where
  "unkeyed_request = mug_request\<lparr>x_api_key := Some ''guess''\<rparr>"

text \<open>
  A string contains \<open>s\<close> as a case-insensitive substring when one of its segments equals
  \<open>s\<close> up to the case of the letters. A record matches a search when its name or its
  description does.
\<close>

definition spec_ci_substring :: "string \<Rightarrow> string \<Rightarrow> bool" where
  "spec_ci_substring s t =
     (\<exists>pre mid suf. t = pre @ mid @ suf \<and> toLowerCase mid = toLowerCase s)"

definition spec_matches :: "string \<Rightarrow> product \<Rightarrow> bool" where
  "spec_matches s p =
     ((case pget p ''name'' of JStr t \<Rightarrow> spec_ci_substring s t | _ \<Rightarrow> False)
      \<or> (case pget p ''description'' of JStr t \<Rightarrow> spec_ci_substring s t | _ \<Rightarrow> False))"

text \<open>A search with the given query string, and a request for the statistics.\<close>

definition search_request :: "query \<Rightarrow> request" where
  "search_request q =
     \<lparr> req_method = GET, req_path = [''api'', ''products'', ''search''],
       x_api_key = None, req_query = q, req_body = Map.empty \<rparr>"

definition stats_request :: request where
  "stats_request =
     \<lparr> req_method = GET, req_path = [''api'', ''products'', ''stats''],
       x_api_key = None, req_query = Map.empty, req_body = Map.empty \<rparr>"

section \<open>Properties of strings\<close>

lemma dropWhile_all_nil: "(\<forall>x \<in> set (dropWhile P xs). P x) = (\<forall>x \<in> set xs. P x)"
proof
  assume all: "\<forall>x \<in> set (dropWhile P xs). P x"
  have "dropWhile P xs = []"
  proof (rule ccontr)
    assume ne: "dropWhile P xs \<noteq> []"
    then have "\<not> P (hd (dropWhile P xs))" by (rule hd_dropWhile)
    moreover have "hd (dropWhile P xs) \<in> set (dropWhile P xs)" using ne by simp
    ultimately show False using all by blast
  qed
  then show "\<forall>x \<in> set xs. P x" by (simp only: dropWhile_eq_Nil_conv)
next
  assume "\<forall>x \<in> set xs. P x"
  then show "\<forall>x \<in> set (dropWhile P xs). P x" by (auto dest: set_dropWhileD)
qed

lemma trim_empty_iff: "(trim s = []) = (\<forall>c \<in> set s. is_ws c)"
  by (simp add: trim_def dropWhile_all_nil)

lemma text_test_iff:
  "(\<not> truthy v \<or> typeof v \<noteq> TString \<or> (case v of JStr s \<Rightarrow> length (trim s) = 0 | _ \<Rightarrow> False))
     = (\<not> spec_text_rule v)"
  by (cases v) (auto simp: spec_text_rule_def trim_empty_iff)

lemma price_test_iff:
  "(v = JUndefined \<or> typeof v \<noteq> TNumber \<or> (case v of JNum r \<Rightarrow> r < 0 | _ \<Rightarrow> False))
     = (\<not> spec_price_rule v)"
  by (cases v) (auto simp: spec_price_rule_def)

lemma inStock_test_iff:
  "(v = JUndefined \<or> typeof v \<noteq> TBoolean) = (\<not> spec_inStock_rule v)"
  by (cases v) (auto simp: spec_inStock_rule_def)

lemma validateProduct_violations:
  "validateProduct b =
     (if spec_violations b = [] then Inr ()
      else Inl (ValidationError (js_join '', '' (spec_violations b))))"
  unfolding validateProduct_def spec_violations_def Let_def
    text_test_iff price_test_iff inStock_test_iff
  by simp

lemma validateProduct_pass_iff:
  "(validateProduct b = Inr ()) =
     (spec_text_rule (body_field b ''name'') \<and> spec_text_rule (body_field b ''description'')
      \<and> spec_price_rule (body_field b ''price'') \<and> spec_text_rule (body_field b ''category'')
      \<and> spec_inStock_rule (body_field b ''inStock''))"
  unfolding validateProduct_violations
  by (simp add: spec_violations_def)

section \<open>Validation reports every violated rule\<close>

text \<open>
  C2. Validation looks at all five rules (name, description, price, category, inStock),
  each on its own: the result is decided by the list of the messages of the violated
  rules, in the order of the rules. When the list is empty validation passes. Otherwise
  the result is a \<open>ValidationError\<close>, of status 400, whose message is all of these
  messages joined by the separator \<open>, \<close>; and the message of a rule is in the list
  exactly when that rule is violated, whatever the other fields hold.
\<close>

theorem validateProduct_reports_every_violation:
  "validateProduct b =
     (if spec_violations b = [] then Inr ()
      else Inl (ValidationError (js_join '', '' (spec_violations b))))
   \<and> (validateProduct b = Inr () \<or>
        (\<exists>m. validateProduct b = Inl (ValidationError m)
           \<and> statusCode (ValidationError m) = 400))
   \<and> (name_message \<in> set (spec_violations b))
        = (\<not> spec_text_rule (body_field b ''name''))
   \<and> (description_message \<in> set (spec_violations b))
        = (\<not> spec_text_rule (body_field b ''description''))
   \<and> (price_message \<in> set (spec_violations b))
        = (\<not> spec_price_rule (body_field b ''price''))
   \<and> (category_message \<in> set (spec_violations b))
        = (\<not> spec_text_rule (body_field b ''category''))
   \<and> (inStock_message \<in> set (spec_violations b))
        = (\<not> spec_inStock_rule (body_field b ''inStock''))"
proof -
  have distinct_messages:
    "distinct [name_message, description_message, price_message, category_message,
       inStock_message]"
    by (simp add: name_message_def description_message_def price_message_def
        category_message_def inStock_message_def)
  have outcome: "validateProduct b = Inr () \<or>
        (\<exists>m. validateProduct b = Inl (ValidationError m)
           \<and> statusCode (ValidationError m) = 400)"
    by (simp add: validateProduct_violations)
  show ?thesis
    using distinct_messages outcome
    by (auto simp: validateProduct_violations spec_violations_def)
qed

text \<open>
  A body with a blank name, no price and a numeric category: three rules are violated,
  and all three messages are reported.
\<close>

theorem validateProduct_reports_every_violation_witness:
  "validateProduct
     (map_of [(''name'', JStr ''  ''), (''description'', JStr ''A mug''),
              (''category'', JNum 3), (''inStock'', JBool True)])
   = Inl (ValidationError
       (''Name is required and must be a non-empty string, '' @
        ''Price is required and must be a non-negative number, '' @
        ''Category is required and must be a non-empty string''))"
proof -
  have v: "spec_violations
     (map_of [(''name'', JStr ''  ''), (''description'', JStr ''A mug''),
              (''category'', JNum 3), (''inStock'', JBool True)])
     = [name_message, price_message, category_message]"
    by code_simp
  show ?thesis
    using validateProduct_reports_every_violation
      [of "map_of [(''name'', JStr ''  ''), (''description'', JStr ''A mug''),
              (''category'', JNum 3), (''inStock'', JBool True)]"]
    unfolding v
    by (simp add: name_message_def price_message_def category_message_def)
qed

section \<open>The store invariant\<close>

lemma is_ws_lower_char: "is_ws (lower_char c) = is_ws c"
  by (auto simp: is_ws_def lower_char_def Let_def)

lemma trim_keeps_content:
  assumes "\<exists>c \<in> set s. \<not> is_ws c"
  shows "\<exists>c \<in> set (trim s). \<not> is_ws c"
proof -
  let ?r = "dropWhile is_ws (rev (dropWhile is_ws s))"
  have "trim s \<noteq> []" using assms by (simp add: trim_empty_iff)
  then have ne: "?r \<noteq> []" by (simp add: trim_def)
  then have "\<not> is_ws (hd ?r)" by (rule hd_dropWhile)
  moreover have "hd ?r \<in> set (trim s)" using ne by (simp add: trim_def)
  ultimately show ?thesis by blast
qed

lemma text_rule_trim: "spec_text_rule (JStr s) \<Longrightarrow> spec_text_rule (JStr (trim s))"
  using trim_keeps_content by (simp add: spec_text_rule_def)

lemma text_rule_lower: "spec_text_rule (JStr s) \<Longrightarrow> spec_text_rule (JStr (toLowerCase s))"
  by (auto simp: spec_text_rule_def toLowerCase_def is_ws_lower_char)

lemma text_rule_string: "spec_text_rule v \<Longrightarrow> \<exists>s. v = JStr s \<and> s \<noteq> []"
  by (cases v) (auto simp: spec_text_rule_def)

lemma text_rule_js_trim: "spec_text_rule v \<Longrightarrow> \<exists>s. v = JStr s \<and> js_trim v = Inr (trim s)"
  by (cases v) (auto simp: spec_text_rule_def js_trim_def)

lemma post_handler_valid:
  assumes ok: "validateProduct b = Inr ()"
  shows "\<exists>n d c. body_field b ''name'' = JStr n \<and> body_field b ''description'' = JStr d
           \<and> body_field b ''category'' = JStr c
           \<and> post_handler uuid b products =
               Inr ([(''id'', JStr uuid), (''name'', JStr (trim n)),
                     (''description'', JStr (trim d)), (''price'', body_field b ''price''),
                     (''category'', JStr (toLowerCase (trim c))),
                     (''inStock'', body_field b ''inStock'')],
                    products @ [[(''id'', JStr uuid), (''name'', JStr (trim n)),
                     (''description'', JStr (trim d)), (''price'', body_field b ''price''),
                     (''category'', JStr (toLowerCase (trim c))),
                     (''inStock'', body_field b ''inStock'')]])"
proof -
  from ok have r: "spec_text_rule (body_field b ''name'')"
      "spec_text_rule (body_field b ''description'')"
      "spec_text_rule (body_field b ''category'')"
    by (simp_all add: validateProduct_pass_iff)
  from text_rule_js_trim [OF r(1)] obtain n where
    n: "body_field b ''name'' = JStr n" "js_trim (body_field b ''name'') = Inr (trim n)" by blast
  from text_rule_js_trim [OF r(2)] obtain d where
    d: "body_field b ''description'' = JStr d"
       "js_trim (body_field b ''description'') = Inr (trim d)" by blast
  from text_rule_js_trim [OF r(3)] obtain c where
    c: "body_field b ''category'' = JStr c"
       "js_trim (body_field b ''category'') = Inr (trim c)" by blast
  show ?thesis
    unfolding post_handler_def n(2) d(2) c(2)
    using n(1) d(1) c(1) by (simp add: Let_def)
qed

lemma built_product_valid:
  assumes ok: "validateProduct b = Inr ()"
    and n: "body_field b ''name'' = JStr n"
    and d: "body_field b ''description'' = JStr d"
    and c: "body_field b ''category'' = JStr c"
  shows "spec_valid_product
           [(''id'', i), (''name'', JStr (trim n)),
            (''description'', JStr (trim d)), (''price'', body_field b ''price''),
            (''category'', JStr (toLowerCase (trim c))),
            (''inStock'', body_field b ''inStock'')]"
proof -
  from ok have r: "spec_text_rule (JStr n)" "spec_text_rule (JStr d)" "spec_text_rule (JStr c)"
      "spec_price_rule (body_field b ''price'')" "spec_inStock_rule (body_field b ''inStock'')"
    using n d c by (simp_all add: validateProduct_pass_iff)
  show ?thesis
    using r by (simp add: spec_valid_product_def pget_def text_rule_trim text_rule_lower)
qed


lemma findIndex_Some:
  "findIndex P xs = Some i \<Longrightarrow> i < length xs \<and> P (xs ! i) \<and> (\<forall>j < i. \<not> P (xs ! j))"
proof (induction xs arbitrary: i)
  case Nil
  then show ?case by simp
next
  case (Cons x xs)
  show ?case
  proof (cases "P x")
    case True
    with Cons.prems show ?thesis by simp
  next
    case False
    with Cons.prems obtain k where k: "findIndex P xs = Some k" "i = Suc k"
      by auto
    from Cons.IH [OF k(1)] False k(2) show ?thesis
      by (auto simp: nth_Cons split: nat.splits)
  qed
qed


lemma put_handler_valid:
  assumes ok: "validateProduct b = Inr ()"
  shows "\<exists>n d c. body_field b ''name'' = JStr n \<and> body_field b ''description'' = JStr d
           \<and> body_field b ''category'' = JStr c
           \<and> put_handler rid b products =
               (case findIndex (\<lambda>p. pget p ''id'' = param_js rid) products of
                  None \<Rightarrow> Inl (NotFoundError (not_found_message rid))
                | Some i \<Rightarrow>
                    Inr ([(''id'', param_js rid), (''name'', JStr (trim n)),
                          (''description'', JStr (trim d)), (''price'', body_field b ''price''),
                          (''category'', JStr (toLowerCase (trim c))),
                          (''inStock'', body_field b ''inStock'')],
                         products[i := [(''id'', param_js rid), (''name'', JStr (trim n)),
                          (''description'', JStr (trim d)), (''price'', body_field b ''price''),
                          (''category'', JStr (toLowerCase (trim c))),
                          (''inStock'', body_field b ''inStock'')]]))"
proof -
  from ok have r: "spec_text_rule (body_field b ''name'')"
      "spec_text_rule (body_field b ''description'')"
      "spec_text_rule (body_field b ''category'')"
    by (simp_all add: validateProduct_pass_iff)
  from text_rule_js_trim [OF r(1)] obtain n where
    n: "body_field b ''name'' = JStr n" "js_trim (body_field b ''name'') = Inr (trim n)" by blast
  from text_rule_js_trim [OF r(2)] obtain d where
    d: "body_field b ''description'' = JStr d"
       "js_trim (body_field b ''description'') = Inr (trim d)" by blast
  from text_rule_js_trim [OF r(3)] obtain c where
    c: "body_field b ''category'' = JStr c"
       "js_trim (body_field b ''category'') = Inr (trim c)" by blast
  show ?thesis
    unfolding put_handler_def n(2) d(2) c(2)
    using n(1) d(1) c(1) by (simp add: Let_def split: option.splits)
qed

lemma post_handler_store:
  assumes ok: "validateProduct b = Inr ()" and inv: "valid_store products"
    and run: "post_handler uuid b products = Inr (p, products')"
  shows "valid_store products'"
proof -
  from post_handler_valid [OF ok, of uuid products] obtain n d c where
    f: "body_field b ''name'' = JStr n" "body_field b ''description'' = JStr d"
       "body_field b ''category'' = JStr c"
    and r: "post_handler uuid b products =
               Inr ([(''id'', JStr uuid), (''name'', JStr (trim n)),
                     (''description'', JStr (trim d)), (''price'', body_field b ''price''),
                     (''category'', JStr (toLowerCase (trim c))),
                     (''inStock'', body_field b ''inStock'')],
                    products @ [[(''id'', JStr uuid), (''name'', JStr (trim n)),
                     (''description'', JStr (trim d)), (''price'', body_field b ''price''),
                     (''category'', JStr (toLowerCase (trim c))),
                     (''inStock'', body_field b ''inStock'')]])"
    by blast
  from built_product_valid [OF ok f] inv run r show ?thesis
    by (auto simp: valid_store_def)
qed

lemma put_handler_store:
  assumes ok: "validateProduct b = Inr ()" and inv: "valid_store products"
    and run: "put_handler rid b products = Inr (p, products')"
  shows "valid_store products'"
proof -
  from put_handler_valid [OF ok, of rid products] obtain n d c where
    f: "body_field b ''name'' = JStr n" "body_field b ''description'' = JStr d"
       "body_field b ''category'' = JStr c"
    and r: "put_handler rid b products =
               (case findIndex (\<lambda>p. pget p ''id'' = param_js rid) products of
                  None \<Rightarrow> Inl (NotFoundError (not_found_message rid))
                | Some i \<Rightarrow>
                    Inr ([(''id'', param_js rid), (''name'', JStr (trim n)),
                          (''description'', JStr (trim d)), (''price'', body_field b ''price''),
                          (''category'', JStr (toLowerCase (trim c))),
                          (''inStock'', body_field b ''inStock'')],
                         products[i := [(''id'', param_js rid), (''name'', JStr (trim n)),
                          (''description'', JStr (trim d)), (''price'', body_field b ''price''),
                          (''category'', JStr (toLowerCase (trim c))),
                          (''inStock'', body_field b ''inStock'')]]))"
    by blast
  have v: "spec_valid_product [(''id'', param_js rid), (''name'', JStr (trim n)),
                          (''description'', JStr (trim d)), (''price'', body_field b ''price''),
                          (''category'', JStr (toLowerCase (trim c))),
                          (''inStock'', body_field b ''inStock'')]"
    by (rule built_product_valid [OF ok f])
  from run r obtain i where
    "products' = products[i := [(''id'', param_js rid), (''name'', JStr (trim n)),
                          (''description'', JStr (trim d)), (''price'', body_field b ''price''),
                          (''category'', JStr (toLowerCase (trim c))),
                          (''inStock'', body_field b ''inStock'')]]"
    by (auto split: option.splits)
  with v inv show ?thesis
    by (auto simp: valid_store_def dest!: set_update_subset_insert [THEN subsetD])
qed

lemma delete_handler_store:
  assumes inv: "valid_store products"
    and run: "delete_handler rid products = Inr (p, products')"
  shows "valid_store products'"
  using assms
  by (auto simp: delete_handler_def valid_store_def split: option.splits
      dest!: in_set_takeD in_set_dropD)

lemma run_route_store:
  assumes inv: "valid_store products"
    and run: "run_route h uuid params req products = Inr (answer, products')"
  shows "valid_store products'"
proof (cases h)
  case CreateProduct
  with run inv show ?thesis
    by (auto simp: run_route_def split: sum.splits prod.splits dest: post_handler_store)
next
  case UpdateProduct
  with run inv show ?thesis
    by (auto simp: run_route_def split: sum.splits prod.splits dest: put_handler_store)
next
  case DeleteProduct
  with run inv show ?thesis
    by (auto simp: run_route_def split: sum.splits prod.splits dest: delete_handler_store)
qed (use run inv in \<open>auto simp: run_route_def split: sum.splits\<close>)

lemma handle_store:
  assumes inv: "valid_store products"
  shows "valid_store (snd (handle uuid req products))"
  using inv
  by (auto simp: handle_def split: option.splits sum.splits prod.splits dest: run_route_store)

lemma initial_products_valid: "valid_store initial_products"
  by (simp add: valid_store_def initial_products_def laptop_def smartphone_def coffee_maker_def
      spec_valid_product_def pget_def spec_text_rule_def spec_price_rule_def
      spec_inStock_rule_def is_ws_def)

lemma reachable_valid: "reachable products \<Longrightarrow> valid_store products"
  by (induction rule: reachable.induct) (simp_all add: initial_products_valid handle_store)

lemma body_field_map_of: "body_field (map_of p) k = pget p k"
  by (simp add: body_field_def pget_def)

lemma price_rule_number: "spec_price_rule v \<Longrightarrow> \<exists>r. v = JNum r \<and> 0 \<le> r"
  by (cases v) (auto simp: spec_price_rule_def)

lemma inStock_rule_boolean: "spec_inStock_rule v \<Longrightarrow> \<exists>x. v = JBool x"
  by (cases v) (auto simp: spec_inStock_rule_def)

lemma handle_mug_request:
  "handle ''u-1'' mug_request initial_products =
     ((201, Created mug), [laptop, smartphone, coffee_maker, mug])"
  by code_simp

text \<open>
  C1. Every record of every array the server can reach (from the three initial records,
  by any sequence of requests, so after every create, update and delete) satisfies the
  field rules: validating the record as a body passes, its price is a number that is at
  least 0, its name, description and category are non-empty strings, and its
  \<open>inStock\<close> is a boolean.
\<close>

theorem store_holds_validated_records:
  assumes "reachable products" and "p \<in> set products"
  shows "validateProduct (map_of p) = Inr ()
       \<and> (\<exists>r. pget p ''price'' = JNum r \<and> 0 \<le> r)
       \<and> (\<exists>s. pget p ''name'' = JStr s \<and> s \<noteq> [])
       \<and> (\<exists>s. pget p ''description'' = JStr s \<and> s \<noteq> [])
       \<and> (\<exists>s. pget p ''category'' = JStr s \<and> s \<noteq> [])
       \<and> (\<exists>x. pget p ''inStock'' = JBool x)"
proof -
  from assms have v: "spec_valid_product p"
    using reachable_valid by (auto simp: valid_store_def)
  then have "validateProduct (map_of p) = Inr ()"
    by (simp add: validateProduct_pass_iff body_field_map_of spec_valid_product_def)
  with v show ?thesis
    by (simp add: spec_valid_product_def text_rule_string price_rule_number
        inStock_rule_boolean)
qed

text \<open>The array after the example request is reachable, and its new record is valid.\<close>

theorem store_holds_validated_records_witness:
  "reachable [laptop, smartphone, coffee_maker, mug]
   \<and> mug \<in> set [laptop, smartphone, coffee_maker, mug]
   \<and> validateProduct (map_of mug) = Inr ()
   \<and> (\<exists>r. pget mug ''price'' = JNum r \<and> 0 \<le> r)
   \<and> (\<exists>s. pget mug ''name'' = JStr s \<and> s \<noteq> [])
   \<and> (\<exists>s. pget mug ''description'' = JStr s \<and> s \<noteq> [])
   \<and> (\<exists>s. pget mug ''category'' = JStr s \<and> s \<noteq> [])
   \<and> (\<exists>x. pget mug ''inStock'' = JBool x)"
proof -
  have "reachable (snd (handle ''u-1'' mug_request initial_products))"
    by (rule reachable.step [OF reachable.start])
  then have r: "reachable [laptop, smartphone, coffee_maker, mug]"
    by (simp add: handle_mug_request)
  have m: "mug \<in> set [laptop, smartphone, coffee_maker, mug]" by simp
  from store_holds_validated_records [OF r m] r m show ?thesis by blast
qed

section \<open>What a request does to the array\<close>

lemma post_handler_sanitized:
  assumes ok: "validateProduct b = Inr ()"
  shows "\<exists>n d c. body_field b ''name'' = JStr n \<and> body_field b ''description'' = JStr d
           \<and> body_field b ''category'' = JStr c
           \<and> post_handler uuid b products =
               Inr (spec_sanitized (JStr uuid) n d c b,
                    products @ [spec_sanitized (JStr uuid) n d c b])"
  using post_handler_valid [OF ok, of uuid products]
  unfolding spec_sanitized_def by blast

lemma put_handler_sanitized:
  assumes ok: "validateProduct b = Inr ()"
  shows "\<exists>n d c. body_field b ''name'' = JStr n \<and> body_field b ''description'' = JStr d
           \<and> body_field b ''category'' = JStr c
           \<and> put_handler rid b products =
               (case findIndex (\<lambda>p. pget p ''id'' = param_js rid) products of
                  None \<Rightarrow> Inl (NotFoundError (not_found_message rid))
                | Some i \<Rightarrow>
                    Inr (spec_sanitized (param_js rid) n d c b,
                         products[i := spec_sanitized (param_js rid) n d c b]))"
  using put_handler_valid [OF ok, of rid products]
  unfolding spec_sanitized_def by blast

lemma statusCode_not_success: "statusCode e \<noteq> 200" "statusCode e \<noteq> 201"
  by (cases e; simp)+

lemma match_path_Nil: "(match_path [] path = Some params) = (path = [] \<and> params = [])"
  by (cases path) auto

lemma match_path_Lit:
  "(match_path (Lit l # ps) path = Some params) =
     (\<exists>s ss. path = s # ss \<and> toLowerCase s = toLowerCase l \<and> match_path ps ss = Some params)"
  by (cases path) auto

lemma match_path_Param:
  "(match_path (Param n # ps) path = Some params) =
     (\<exists>s ss rest. path = s # ss \<and> s \<noteq> [] \<and> match_path ps ss = Some rest
        \<and> params = (n, s) # rest)"
  by (cases path) auto

lemma find_route_routes:
  assumes "find_route routes m path = Some (h, params)"
  shows "(m = GET \<and> h \<in> {Root, ListProducts, SearchProducts, ProductStats, GetProduct})
     \<or> (m = POST \<and> h = CreateProduct \<and> params = [])
     \<or> (m = PUT \<and> h = UpdateProduct \<and> (\<exists>rid. params = [(''id'', rid)]))
     \<or> (m = DELETE \<and> h = DeleteProduct \<and> (\<exists>rid. params = [(''id'', rid)]))"
proof (cases m)
  case GET
  with assms show ?thesis
    by (auto simp: routes_def split: option.splits)
next
  case POST
  with assms show ?thesis
    by (auto simp: routes_def match_path_Lit match_path_Nil split: option.splits)
next
  case PUT
  with assms show ?thesis
    by (auto simp: routes_def match_path_Lit match_path_Param match_path_Nil
        split: option.splits)
next
  case DELETE
  with assms show ?thesis
    by (auto simp: routes_def match_path_Lit match_path_Param match_path_Nil
        split: option.splits)
qed

lemma run_route_created:
  assumes "run_route h uuid params req products = Inr ((st, r), products')"
  shows "(st = 201) = (h = CreateProduct)" and "st = 200 \<or> st = 201"
  using assms
  by (cases h; auto simp: run_route_def split: sum.splits prod.splits)+

text \<open>What a request can do to the array.\<close>

lemma run_route_effect:
  assumes "run_route h uuid params req products = Inr (answer, products')"
  shows "products' = products
     \<or> (\<exists>n d c. h = CreateProduct \<and> validateProduct (req_body req) = Inr ()
          \<and> body_field (req_body req) ''name'' = JStr n
          \<and> body_field (req_body req) ''description'' = JStr d
          \<and> body_field (req_body req) ''category'' = JStr c
          \<and> answer = (201, Created (spec_sanitized (JStr uuid) n d c (req_body req)))
          \<and> products' = products @ [spec_sanitized (JStr uuid) n d c (req_body req)])
     \<or> (\<exists>n d c i. h = UpdateProduct \<and> validateProduct (req_body req) = Inr ()
          \<and> body_field (req_body req) ''name'' = JStr n
          \<and> body_field (req_body req) ''description'' = JStr d
          \<and> body_field (req_body req) ''category'' = JStr c
          \<and> findIndex (\<lambda>p. pget p ''id'' = param_js (map_of params ''id'')) products = Some i
          \<and> answer = (200, Updated (spec_sanitized (param_js (map_of params ''id'')) n d c
                           (req_body req)))
          \<and> products' = products[i := spec_sanitized (param_js (map_of params ''id'')) n d c
                           (req_body req)])
     \<or> (\<exists>i. h = DeleteProduct
          \<and> findIndex (\<lambda>p. pget p ''id'' = param_js (map_of params ''id'')) products = Some i
          \<and> answer = (200, Deleted (products ! i))
          \<and> products' = take i products @ drop (Suc i) products)"
proof (cases h)
  case CreateProduct
  with assms have ok: "validateProduct (req_body req) = Inr ()"
    by (auto simp: run_route_def split: sum.splits)
  from post_handler_sanitized [OF ok, of uuid products] CreateProduct assms show ?thesis
    by (auto simp: run_route_def split: sum.splits)
next
  case UpdateProduct
  with assms have ok: "validateProduct (req_body req) = Inr ()"
    by (auto simp: run_route_def split: sum.splits)
  from put_handler_sanitized [OF ok, of "map_of params ''id''" products] UpdateProduct assms
  show ?thesis
    by (auto simp: run_route_def split: sum.splits option.splits)
next
  case DeleteProduct
  with assms show ?thesis
    by (auto simp: run_route_def delete_handler_def split: sum.splits option.splits)
qed (use assms in \<open>auto simp: run_route_def split: sum.splits\<close>)

lemma handle_effect:
  "snd (handle uuid req products) = products
   \<or> (\<exists>i n d c. snd (handle uuid req products)
          = products @ [spec_sanitized i n d c (req_body req)])
   \<or> (\<exists>i n d c k. k < length products \<and> snd (handle uuid req products)
          = products[k := spec_sanitized i n d c (req_body req)])
   \<or> (\<exists>k. k < length products
          \<and> snd (handle uuid req products) = take k products @ drop (Suc k) products)"
proof (cases "find_route routes (req_method req) (req_path req)")
  case None
  then show ?thesis by (simp add: handle_def)
next
  case (Some hp)
  obtain h params where hp: "hp = (h, params)" by (cases hp)
  show ?thesis
  proof (cases "run_route h uuid params req products")
    case (Inl e)
    with Some hp show ?thesis by (simp add: handle_def)
  next
    case (Inr a)
    obtain answer products' where a: "a = (answer, products')" by (cases a)
    from Inr a Some hp have s: "snd (handle uuid req products) = products'"
      by (simp add: handle_def)
    from run_route_effect [OF Inr [unfolded a]]
    consider "products' = products"
      | i n d c where "products' = products @ [spec_sanitized i n d c (req_body req)]"
      | i n d c k where "findIndex (\<lambda>p. pget p ''id'' = param_js (map_of params ''id''))
            products = Some k"
          "products' = products[k := spec_sanitized i n d c (req_body req)]"
      | k where "findIndex (\<lambda>p. pget p ''id'' = param_js (map_of params ''id''))
            products = Some k"
          "products' = take k products @ drop (Suc k) products"
      by blast
    then show ?thesis
    proof cases
      case 1
      then show ?thesis unfolding s by simp
    next
      case 2
      then show ?thesis unfolding s by blast
    next
      case 3
      from findIndex_Some [OF 3(1)] 3(2) show ?thesis unfolding s by blast
    next
      case 4
      from findIndex_Some [OF 4(1)] 4(2) show ?thesis unfolding s by blast
    qed
  qed
qed

lemma sanitized_fields: "map fst (spec_sanitized i n d c b) = product_fields"
  by (simp add: spec_sanitized_def product_fields_def)

lemma reachable_fields:
  "reachable products \<Longrightarrow> \<forall>p \<in> set products. map fst p = product_fields"
proof (induction rule: reachable.induct)
  case start
  show ?case
    by (simp add: initial_products_def laptop_def smartphone_def coffee_maker_def
        product_fields_def)
next
  case (step products uuid req)
  from handle_effect [of uuid req products] step.IH show ?case
    by (auto simp: sanitized_fields dest!: in_set_takeD in_set_dropD
        set_update_subset_insert [THEN subsetD])
qed

lemma handlers_read_five_fields:
  assumes "\<forall>k \<in> set [''name'', ''description'', ''price'', ''category'', ''inStock'']. b k = b' k"
  shows "validateProduct b = validateProduct b'"
    and "post_handler uuid b products = post_handler uuid b' products"
    and "put_handler rid b products = put_handler rid b' products"
proof -
  from assms have "body_field b ''name'' = body_field b' ''name''"
      "body_field b ''description'' = body_field b' ''description''"
      "body_field b ''price'' = body_field b' ''price''"
      "body_field b ''category'' = body_field b' ''category''"
      "body_field b ''inStock'' = body_field b' ''inStock''"
    by (simp_all add: body_field_def)
  then show "validateProduct b = validateProduct b'"
    and "post_handler uuid b products = post_handler uuid b' products"
    and "put_handler rid b products = put_handler rid b' products"
    by (simp_all add: validateProduct_def post_handler_def put_handler_def
        cong: option.case_cong sum.case_cong)
qed

lemma run_route_reads_five_fields:
  assumes "\<forall>k \<in> set [''name'', ''description'', ''price'', ''category'', ''inStock''].
             b' k = req_body req k"
  shows "run_route h uuid params (req\<lparr>req_body := b'\<rparr>) products
           = run_route h uuid params req products"
  using handlers_read_five_fields [OF assms]
  by (cases h) (simp_all add: run_route_def cong: sum.case_cong)

lemma handle_reads_five_fields:
  assumes "\<forall>k \<in> set [''name'', ''description'', ''price'', ''category'', ''inStock''].
             b' k = req_body req k"
  shows "handle uuid (req\<lparr>req_body := b'\<rparr>) products = handle uuid req products"
  by (simp add: handle_def run_route_reads_five_fields [OF assms]
      split: option.splits prod.splits)

section \<open>Stored records have the six documented fields\<close>

text \<open>
  C10. Every record of every reachable array has exactly the six fields id, name,
  description, price, category and inStock, in this order; and a property of a request
  body other than the five documented fields has no effect on what the server answers
  or stores: it is discarded.
\<close>

theorem stored_records_have_six_fields:
  assumes "reachable products" and "p \<in> set products"
  shows "map fst p = [''id'', ''name'', ''description'', ''price'', ''category'', ''inStock'']
       \<and> (k \<notin> set [''name'', ''description'', ''price'', ''category'', ''inStock''] \<longrightarrow>
            handle uuid (req\<lparr>req_body := (req_body req)(k \<mapsto> v)\<rparr>) products
              = handle uuid req products)"
proof -
  have "map fst p = [''id'', ''name'', ''description'', ''price'', ''category'', ''inStock'']"
    using reachable_fields [OF assms(1)] assms(2) by (simp add: product_fields_def)
  moreover have "handle uuid (req\<lparr>req_body := (req_body req)(k \<mapsto> v)\<rparr>) products
              = handle uuid req products"
    if "k \<notin> set [''name'', ''description'', ''price'', ''category'', ''inStock'']"
    by (rule handle_reads_five_fields) (use that in auto)
  ultimately show ?thesis by blast
qed

text \<open>
  The example request carries the extra properties \<open>id\<close> and \<open>admin\<close>; the record stored
  for it has the six fields, and the answer is the same with one more extra property.
\<close>

theorem stored_records_have_six_fields_witness:
  "reachable [laptop, smartphone, coffee_maker, mug]
   \<and> mug \<in> set [laptop, smartphone, coffee_maker, mug]
   \<and> req_body mug_request ''admin'' = Some (JBool True)
   \<and> snd (handle ''u-1'' mug_request initial_products) = [laptop, smartphone, coffee_maker, mug]
   \<and> map fst mug = [''id'', ''name'', ''description'', ''price'', ''category'', ''inStock'']
   \<and> ''owner'' \<notin> set [''name'', ''description'', ''price'', ''category'', ''inStock'']
   \<and> handle ''u-2'' (mug_request\<lparr>req_body := (req_body mug_request)(''owner'' \<mapsto> JNull)\<rparr>)
         [laptop, smartphone, coffee_maker, mug]
       = handle ''u-2'' mug_request [laptop, smartphone, coffee_maker, mug]"
proof -
  have "reachable (snd (handle ''u-1'' mug_request initial_products))"
    by (rule reachable.step [OF reachable.start])
  then have r: "reachable [laptop, smartphone, coffee_maker, mug]"
    by (simp add: handle_mug_request)
  have m: "mug \<in> set [laptop, smartphone, coffee_maker, mug]" by simp
  have a: "req_body mug_request ''admin'' = Some (JBool True)"
    by (simp add: mug_request_def)
  have k: "''owner'' \<notin> set [''name'', ''description'', ''price'', ''category'', ''inStock'']"
    by simp
  from stored_records_have_six_fields
    [OF r m, of "''owner''" "''u-2''" mug_request JNull] r m a k
  show ?thesis
    by (simp add: handle_mug_request)
qed

lemma handle_status:
  "fst (fst (handle uuid req products)) = 201 \<Longrightarrow>
     \<exists>params answer products'.
       find_route routes (req_method req) (req_path req) = Some (CreateProduct, params)
       \<and> run_route CreateProduct uuid params req products = Inr (answer, products')
       \<and> handle uuid req products = (answer, products')"
proof -
  assume st: "fst (fst (handle uuid req products)) = 201"
  show ?thesis
  proof (cases "find_route routes (req_method req) (req_path req)")
    case None
    with st show ?thesis by (simp add: handle_def)
  next
    case (Some hp)
    obtain h params where hp: "hp = (h, params)" by (cases hp)
    show ?thesis
    proof (cases "run_route h uuid params req products")
      case (Inl e)
      with st Some hp show ?thesis
        by (simp add: handle_def respond_error_def statusCode_not_success)
    next
      case (Inr a)
      obtain s r products' where a: "a = ((s, r), products')" by (cases a) auto
      from Inr a Some hp st have "s = 201" by (simp add: handle_def)
      with run_route_created(1) [OF Inr [unfolded a]] have "h = CreateProduct" by simp
      with Inr a Some hp show ?thesis by (simp add: handle_def)
    qed
  qed
qed

lemma create_route:
  "find_route routes POST [''api'', ''products''] = Some (CreateProduct, [])"
  by code_simp

section \<open>Create\<close>

text \<open>
  C7. A POST to the products route with the key and a valid body is answered 201; and
  whenever a request is answered 201, the record stored and returned has the name and
  the description of the body trimmed, its category trimmed and lower-cased, its price
  and \<open>inStock\<close> unchanged, and as id the string the generator returned (never a
  property of the body); the record is appended at the end of the array, whose length
  grows by exactly 1.
\<close>

theorem create_appends_sanitized_record:
  "(req_method req = POST \<and> req_path req = [''api'', ''products'']
      \<and> x_api_key req = Some ''your-secret-api-key''
      \<and> validateProduct (req_body req) = Inr ()
    \<longrightarrow> fst (fst (handle uuid req products)) = 201)
   \<and> (fst (fst (handle uuid req products)) = 201 \<longrightarrow>
        (\<exists>n d c newProduct.
           body_field (req_body req) ''name'' = JStr n
         \<and> body_field (req_body req) ''description'' = JStr d
         \<and> body_field (req_body req) ''category'' = JStr c
         \<and> newProduct =
              [(''id'', JStr uuid), (''name'', JStr (trim n)), (''description'', JStr (trim d)),
               (''price'', body_field (req_body req) ''price''),
               (''category'', JStr (toLowerCase (trim c))),
               (''inStock'', body_field (req_body req) ''inStock'')]
         \<and> handle uuid req products = ((201, Created newProduct), products @ [newProduct])
         \<and> length (snd (handle uuid req products)) = length products + 1))"
proof (intro conjI impI)
  assume a: "req_method req = POST \<and> req_path req = [''api'', ''products'']
      \<and> x_api_key req = Some ''your-secret-api-key''
      \<and> validateProduct (req_body req) = Inr ()"
  then have ok: "validateProduct (req_body req) = Inr ()" by simp
  from post_handler_sanitized [OF ok, of uuid products] a
  show "fst (fst (handle uuid req products)) = 201"
    by (auto simp: handle_def create_route run_route_def authMiddleware_def)
next
  assume "fst (fst (handle uuid req products)) = 201"
  from handle_status [OF this] obtain params answer products' where
    run: "run_route CreateProduct uuid params req products = Inr (answer, products')"
    and h: "handle uuid req products = (answer, products')"
    by blast
  from run have ok: "validateProduct (req_body req) = Inr ()"
    and ph: "\<exists>p. post_handler uuid (req_body req) products = Inr (p, products')
               \<and> answer = (201, Created p)"
    by (auto simp: run_route_def split: sum.splits prod.splits)
  from post_handler_sanitized [OF ok, of uuid products] ph obtain n d c where
    "body_field (req_body req) ''name'' = JStr n"
    "body_field (req_body req) ''description'' = JStr d"
    "body_field (req_body req) ''category'' = JStr c"
    "answer = (201, Created (spec_sanitized (JStr uuid) n d c (req_body req)))"
    "products' = products @ [spec_sanitized (JStr uuid) n d c (req_body req)]"
    by auto
  then show "\<exists>n d c newProduct.
           body_field (req_body req) ''name'' = JStr n
         \<and> body_field (req_body req) ''description'' = JStr d
         \<and> body_field (req_body req) ''category'' = JStr c
         \<and> newProduct =
              [(''id'', JStr uuid), (''name'', JStr (trim n)), (''description'', JStr (trim d)),
               (''price'', body_field (req_body req) ''price''),
               (''category'', JStr (toLowerCase (trim c))),
               (''inStock'', body_field (req_body req) ''inStock'')]
         \<and> handle uuid req products = ((201, Created newProduct), products @ [newProduct])
         \<and> length (snd (handle uuid req products)) = length products + 1"
    unfolding h by (simp add: spec_sanitized_def)
qed

text \<open>The example request: its body has an \<open>id\<close> of its own, which is not used.\<close>

theorem create_appends_sanitized_record_witness:
  "req_method mug_request = POST \<and> req_path mug_request = [''api'', ''products'']
   \<and> x_api_key mug_request = Some ''your-secret-api-key''
   \<and> validateProduct (req_body mug_request) = Inr ()
   \<and> body_field (req_body mug_request) ''id'' = JStr ''7''
   \<and> fst (fst (handle ''u-1'' mug_request initial_products)) = 201
   \<and> handle ''u-1'' mug_request initial_products =
       ((201, Created [(''id'', JStr ''u-1''), (''name'', JStr ''Mug''),
                       (''description'', JStr ''Holds tea''), (''price'', JNum 3),
                       (''category'', JStr ''kitchen''), (''inStock'', JBool False)]),
        initial_products @ [[(''id'', JStr ''u-1''), (''name'', JStr ''Mug''),
                       (''description'', JStr ''Holds tea''), (''price'', JNum 3),
                       (''category'', JStr ''kitchen''), (''inStock'', JBool False)]])
   \<and> length (snd (handle ''u-1'' mug_request initial_products)) = 4"
proof -
  have pre: "req_method mug_request = POST \<and> req_path mug_request = [''api'', ''products'']
      \<and> x_api_key mug_request = Some ''your-secret-api-key''
      \<and> validateProduct (req_body mug_request) = Inr ()"
    by code_simp
  have f: "body_field (req_body mug_request) ''id'' = JStr ''7''"
      "body_field (req_body mug_request) ''name'' = JStr '' Mug ''"
      "body_field (req_body mug_request) ''description'' = JStr ''Holds tea''"
      "body_field (req_body mug_request) ''category'' = JStr '' Kitchen ''"
      "body_field (req_body mug_request) ''price'' = JNum 3"
      "body_field (req_body mug_request) ''inStock'' = JBool False"
    by code_simp+
  have t: "trim '' Mug '' = ''Mug''" "trim ''Holds tea'' = ''Holds tea''"
      "toLowerCase (trim '' Kitchen '') = ''kitchen''"
    by code_simp+
  from create_appends_sanitized_record [of mug_request "''u-1''" initial_products] pre
  have st: "fst (fst (handle ''u-1'' mug_request initial_products)) = 201" by blast
  with create_appends_sanitized_record [of mug_request "''u-1''" initial_products]
  show ?thesis
    using pre f t by (auto simp: initial_products_def)
qed

section \<open>Update\<close>







section \<open>Access control\<close>

lemma validateProduct_error: "validateProduct b = Inl e \<Longrightarrow> statusCode e = 400"
  by (auto simp: validateProduct_violations split: if_splits)

lemma post_handler_error: "post_handler uuid b products = Inl e \<Longrightarrow> statusCode e = 500"
  by (auto simp: post_handler_def js_trim_def Let_def split: sum.splits jsval.splits)

lemma put_handler_error:
  "put_handler rid b products = Inl e \<Longrightarrow> statusCode e = 500 \<or> statusCode e = 404"
  by (auto simp: put_handler_def js_trim_def Let_def split: sum.splits jsval.splits option.splits)

lemma delete_handler_error: "delete_handler rid products = Inl e \<Longrightarrow> statusCode e = 404"
  by (auto simp: delete_handler_def split: option.splits)

lemma get_handler_error: "get_handler rid products = Inl e \<Longrightarrow> statusCode e = 404"
  by (auto simp: get_handler_def split: option.splits)

lemma filterE_error:
  "filterE f xs = Inl e \<Longrightarrow> \<exists>x \<in> set xs. f x = Inl e"
  by (induction xs) (auto split: sum.splits)

lemma js_toLowerCase_error: "js_toLowerCase v = Inl e \<Longrightarrow> e = TypeError"
  by (auto simp: js_toLowerCase_def split: jsval.splits)

lemma q_toLowerCase_error: "q_toLowerCase a = Inl e \<Longrightarrow> e = TypeError"
  by (cases a rule: q_toLowerCase.cases) auto

lemma list_handler_error: "list_handler q products = Inl e \<Longrightarrow> statusCode e = 500"
  by (auto simp: list_handler_def Let_def split: sum.splits if_splits
      dest!: filterE_error js_toLowerCase_error q_toLowerCase_error)

lemma search_handler_error:
  "search_handler q products = Inl e \<Longrightarrow> statusCode e = 500 \<or> statusCode e = 400"
  by (auto simp: search_handler_def Let_def split: sum.splits if_splits option.splits
      dest!: filterE_error js_toLowerCase_error q_toLowerCase_error)

lemma authMiddleware_cases:
  "authMiddleware m k =
     (if m = GET \<or> k = Some ''your-secret-api-key'' then Inr ()
      else Inl (AuthenticationError ''Invalid or missing API key''))"
  by (auto simp: authMiddleware_def split: option.splits)

lemma run_route_unauthorized:
  assumes "h \<in> {CreateProduct, UpdateProduct, DeleteProduct}" and "req_method req \<noteq> GET"
    and "x_api_key req \<noteq> Some ''your-secret-api-key''"
  shows "run_route h uuid params req products
           = Inl (AuthenticationError ''Invalid or missing API key'')"
  using assms by (auto simp: run_route_def authMiddleware_cases)

lemma run_route_authorized:
  assumes "run_route h uuid params req products = Inl e"
    and "req_method req = GET \<or> x_api_key req = Some ''your-secret-api-key''"
  shows "statusCode e \<noteq> 401"
  using assms
  by (cases h)
    (auto simp: run_route_def authMiddleware_cases split: sum.splits
      dest: validateProduct_error post_handler_error put_handler_error delete_handler_error
        get_handler_error list_handler_error search_handler_error)

lemma run_route_GET_status:
  assumes "run_route h uuid params req products = Inl e"
    and "h \<in> {Root, ListProducts, SearchProducts, ProductStats, GetProduct}"
  shows "statusCode e \<noteq> 401"
  using assms
  by (auto simp: run_route_def split: sum.splits
      dest: get_handler_error list_handler_error search_handler_error)

lemma run_route_GET_key:
  assumes "h \<in> {Root, ListProducts, SearchProducts, ProductStats, GetProduct}"
  shows "run_route h uuid params (req\<lparr>x_api_key := k\<rparr>) products
           = run_route h uuid params req products"
  using assms by (auto simp: run_route_def)

lemma handle_Inr_status:
  assumes "find_route routes (req_method req) (req_path req) = Some (h, params)"
    and "run_route h uuid params req products = Inr a"
  shows "fst (fst (handle uuid req products)) \<noteq> 401"
proof -
  obtain s r products' where a: "a = ((s, r), products')" by (cases a) auto
  from run_route_created(2) [OF assms(2) [unfolded a]] assms a show ?thesis
    by (auto simp: handle_def)
qed

text \<open>
  C4. \<open>authMiddleware\<close> lets every GET pass, whatever the key, and lets any other method
  pass exactly when the key is the shared secret; otherwise it raises
  \<open>AuthenticationError\<close>, of status 401. For the server: the answer to a GET does not
  depend on the key, is never 401, and leaves the array unchanged; a POST, PUT or DELETE
  that a route claims is answered 401 exactly when the key is absent or wrong, and then
  the answer is the authentication error and the array is unchanged.
\<close>

theorem access_control:
  "authMiddleware GET k = Inr ()
   \<and> (m \<noteq> GET \<longrightarrow> (authMiddleware m k = Inr ()) = (k = Some ''your-secret-api-key''))
   \<and> (m \<noteq> GET \<and> k \<noteq> Some ''your-secret-api-key'' \<longrightarrow>
         authMiddleware m k = Inl (AuthenticationError ''Invalid or missing API key'')
         \<and> statusCode (AuthenticationError ''Invalid or missing API key'') = 401)
   \<and> (req_method req = GET \<longrightarrow>
         handle uuid (req\<lparr>x_api_key := k\<rparr>) products = handle uuid req products
         \<and> fst (fst (handle uuid req products)) \<noteq> 401
         \<and> snd (handle uuid req products) = products)
   \<and> (req_method req \<noteq> GET \<and> find_route routes (req_method req) (req_path req) \<noteq> None \<longrightarrow>
         (fst (fst (handle uuid req products)) = 401)
           = (x_api_key req \<noteq> Some ''your-secret-api-key''))
   \<and> (req_method req \<noteq> GET \<and> find_route routes (req_method req) (req_path req) \<noteq> None
        \<and> x_api_key req \<noteq> Some ''your-secret-api-key'' \<longrightarrow>
         handle uuid req products =
           ((401, Failure ''AuthenticationError'' ''Invalid or missing API key'' 401),
            products))"
proof (intro conjI impI)
  show "authMiddleware GET k = Inr ()" by (simp add: authMiddleware_cases)
next
  assume "m \<noteq> GET"
  then show "(authMiddleware m k = Inr ()) = (k = Some ''your-secret-api-key'')"
    by (simp add: authMiddleware_cases)
next
  assume "m \<noteq> GET \<and> k \<noteq> Some ''your-secret-api-key''"
  then show "authMiddleware m k = Inl (AuthenticationError ''Invalid or missing API key'')"
    by (simp add: authMiddleware_cases)
next
  show "statusCode (AuthenticationError ''Invalid or missing API key'') = 401" by simp
next
  assume g: "req_method req = GET"
  show "handle uuid (req\<lparr>x_api_key := k\<rparr>) products = handle uuid req products"
  proof (cases "find_route routes (req_method req) (req_path req)")
    case None
    then show ?thesis by (simp add: handle_def)
  next
    case (Some hp)
    obtain h params where hp: "hp = (h, params)" by (cases hp)
    from find_route_routes [OF Some [unfolded hp]] g
    have "h \<in> {Root, ListProducts, SearchProducts, ProductStats, GetProduct}" by auto
    from run_route_GET_key [OF this] Some hp show ?thesis by (simp add: handle_def)
  qed
next
  assume g: "req_method req = GET"
  show "fst (fst (handle uuid req products)) \<noteq> 401"
  proof (cases "find_route routes (req_method req) (req_path req)")
    case None
    then show ?thesis by (simp add: handle_def)
  next
    case (Some hp)
    obtain h params where hp: "hp = (h, params)" by (cases hp)
    show ?thesis
    proof (cases "run_route h uuid params req products")
      case (Inl e)
      from run_route_authorized [OF Inl] g Some hp Inl show ?thesis
        by (simp add: handle_def respond_error_def)
    next
      case (Inr a)
      from handle_Inr_status [OF Some [unfolded hp] Inr] show ?thesis .
    qed
  qed
next
  assume g: "req_method req = GET"
  show "snd (handle uuid req products) = products"
  proof (cases "find_route routes (req_method req) (req_path req)")
    case None
    then show ?thesis by (simp add: handle_def)
  next
    case (Some hp)
    obtain h params where hp: "hp = (h, params)" by (cases hp)
    from find_route_routes [OF Some [unfolded hp]] g
    have "h \<in> {Root, ListProducts, SearchProducts, ProductStats, GetProduct}" by auto
    then show ?thesis using Some hp
      by (auto simp: handle_def run_route_def split: sum.splits)
  qed
next
  assume a: "req_method req \<noteq> GET
    \<and> find_route routes (req_method req) (req_path req) \<noteq> None"
  then obtain h params where
    route: "find_route routes (req_method req) (req_path req) = Some (h, params)"
    by auto
  from find_route_routes [OF route] a
  have h: "h \<in> {CreateProduct, UpdateProduct, DeleteProduct}" by auto
  show "(fst (fst (handle uuid req products)) = 401)
           = (x_api_key req \<noteq> Some ''your-secret-api-key'')"
  proof (cases "x_api_key req = Some ''your-secret-api-key''")
    case True
    show ?thesis
    proof (cases "run_route h uuid params req products")
      case (Inl e)
      from run_route_authorized [OF Inl] True route Inl show ?thesis
        by (simp add: handle_def respond_error_def)
    next
      case (Inr b)
      from handle_Inr_status [OF route Inr] True show ?thesis by simp
    qed
  next
    case False
    from run_route_unauthorized [OF h _ False, of uuid params products] a route False
    show ?thesis by (simp add: handle_def respond_error_def)
  qed
next
  assume a: "req_method req \<noteq> GET
    \<and> find_route routes (req_method req) (req_path req) \<noteq> None
    \<and> x_api_key req \<noteq> Some ''your-secret-api-key''"
  then obtain h params where
    route: "find_route routes (req_method req) (req_path req) = Some (h, params)"
    by auto
  from find_route_routes [OF route] a
  have h: "h \<in> {CreateProduct, UpdateProduct, DeleteProduct}" by auto
  from run_route_unauthorized [OF h, of req uuid params products] a route
  show "handle uuid req products =
           ((401, Failure ''AuthenticationError'' ''Invalid or missing API key'' 401),
            products)"
    by (simp add: handle_def respond_error_def)
qed

text \<open>The example request with a wrong key, with no key, and with the right one.\<close>

theorem access_control_witness:
  "req_method unkeyed_request \<noteq> GET
   \<and> find_route routes (req_method unkeyed_request) (req_path unkeyed_request)
       = Some (CreateProduct, [])
   \<and> x_api_key unkeyed_request = Some ''guess''
   \<and> handle ''u-1'' unkeyed_request initial_products =
       ((401, Failure ''AuthenticationError'' ''Invalid or missing API key'' 401),
        initial_products)
   \<and> fst (fst (handle ''u-1'' mug_request initial_products)) = 201
   \<and> authMiddleware POST None = Inl (AuthenticationError ''Invalid or missing API key'')
   \<and> authMiddleware DELETE (Some ''your-secret-api-key'') = Inr ()"
proof -
  have r: "req_method unkeyed_request \<noteq> GET"
      "find_route routes (req_method unkeyed_request) (req_path unkeyed_request)
         = Some (CreateProduct, [])"
      "x_api_key unkeyed_request = Some ''guess''"
    by code_simp+
  from access_control [of "None" POST unkeyed_request "''u-1''" initial_products]
  have "handle ''u-1'' unkeyed_request initial_products =
       ((401, Failure ''AuthenticationError'' ''Invalid or missing API key'' 401),
        initial_products)"
    and "authMiddleware POST None = Inl (AuthenticationError ''Invalid or missing API key'')"
    using r by simp_all
  moreover from access_control [of "Some ''your-secret-api-key''" DELETE]
  have "authMiddleware DELETE (Some ''your-secret-api-key'') = Inr ()" by simp
  ultimately show ?thesis using r by (simp add: handle_mug_request)
qed

section \<open>Search\<close>

lemma str_includes_sublist: "str_includes hay needle = sublist needle hay"
  by (induction hay) (simp_all add: sublist_Cons_right)

lemma str_includes_ci:
  "str_includes (toLowerCase t) (toLowerCase s) = spec_ci_substring s t"
proof
  assume "str_includes (toLowerCase t) (toLowerCase s)"
  then have "\<exists>ps ss. map lower_char t = ps @ map lower_char s @ ss"
    by (simp add: str_includes_sublist sublist_def toLowerCase_def)
  then obtain ps ss where eq: "map lower_char t = ps @ map lower_char s @ ss"
    by blast
  from eq [unfolded map_eq_append_conv] obtain pre rest where
    1: "t = pre @ rest" "map lower_char s @ ss = map lower_char rest"
    by blast
  from 1(2) [unfolded append_eq_map_conv] obtain mid suf where
    2: "rest = mid @ suf" "map lower_char s = map lower_char mid"
    by blast
  from 1(1) 2 have "t = pre @ mid @ suf \<and> toLowerCase mid = toLowerCase s"
    by (simp add: toLowerCase_def)
  then show "spec_ci_substring s t"
    unfolding spec_ci_substring_def by blast
next
  assume "spec_ci_substring s t"
  then obtain pre mid suf where "t = pre @ mid @ suf" "toLowerCase mid = toLowerCase s"
    by (auto simp: spec_ci_substring_def)
  then have "toLowerCase t = toLowerCase pre @ toLowerCase s @ toLowerCase suf"
    by (simp add: toLowerCase_def)
  then show "str_includes (toLowerCase t) (toLowerCase s)"
    by (auto simp: str_includes_sublist sublist_def)
qed

lemma filterE_total:
  "(\<forall>x \<in> set xs. f x = Inr (P x)) \<Longrightarrow> filterE f xs = Inr (filter P xs)"
  by (induction xs) auto

lemma search_callback:
  assumes "spec_valid_product p"
  shows "(case js_toLowerCase (pget p ''name'') of
            Inl e \<Rightarrow> Inl e
          | Inr n \<Rightarrow>
              (case q_toLowerCase (Some (QStr s)) of
                 Inl e \<Rightarrow> Inl e
               | Inr ql \<Rightarrow>
                   if str_includes n ql then Inr True
                   else
                     (case js_toLowerCase (pget p ''description'') of
                        Inl e \<Rightarrow> Inl e
                      | Inr d \<Rightarrow>
                          (case q_toLowerCase (Some (QStr s)) of
                             Inl e \<Rightarrow> Inl e
                           | Inr ql' \<Rightarrow> Inr (str_includes d ql')))))
         = Inr (spec_matches s p)"
proof -
  from assms have "spec_text_rule (pget p ''name'')" "spec_text_rule (pget p ''description'')"
    by (simp_all add: spec_valid_product_def)
  from text_rule_string [OF this(1)] text_rule_string [OF this(2)]
  obtain n d where nd: "pget p ''name'' = JStr n" "pget p ''description'' = JStr d"
    by blast
  show ?thesis
    by (simp add: nd js_toLowerCase_def spec_matches_def str_includes_ci)
qed

lemma search_handler_string:
  assumes "valid_store products" and "s \<noteq> []" and "qu ''q'' = Some (QStr s)"
  shows "search_handler qu products =
           Inr \<lparr> echoed = QStr s, results = filter (spec_matches s) products,
                 matches = length (filter (spec_matches s) products) \<rparr>"
proof -
  have "filterE (\<lambda>product.
                    case js_toLowerCase (pget product ''name'') of
                      Inl e \<Rightarrow> Inl e
                    | Inr n \<Rightarrow>
                        (case q_toLowerCase (Some (QStr s)) of
                           Inl e \<Rightarrow> Inl e
                         | Inr ql \<Rightarrow>
                             if str_includes n ql then Inr True
                             else
                               (case js_toLowerCase (pget product ''description'') of
                                  Inl e \<Rightarrow> Inl e
                                | Inr d \<Rightarrow>
                                    (case q_toLowerCase (Some (QStr s)) of
                                       Inl e \<Rightarrow> Inl e
                                     | Inr ql' \<Rightarrow> Inr (str_includes d ql'))))) products
        = Inr (filter (spec_matches s) products)"
    by (rule filterE_total) (use assms(1) in \<open>auto simp: valid_store_def search_callback\<close>)
  with assms(2,3) show ?thesis
    by (simp add: search_handler_def)
qed

lemma search_handler_missing:
  assumes "qu ''q'' = None \<or> qu ''q'' = Some (QStr [])"
  shows "search_handler qu products = Inl (ValidationError search_message)"
  using assms by (auto simp: search_handler_def)

lemma search_route:
  "find_route routes GET [''api'', ''products'', ''search''] = Some (SearchProducts, [])"
  by code_simp

lemma stats_route:
  "find_route routes GET [''api'', ''products'', ''stats''] = Some (ProductStats, [])"
  by code_simp

lemma handle_search:
  assumes "req_method req = GET" and "req_path req = [''api'', ''products'', ''search'']"
  shows "handle uuid req products =
           (case search_handler (req_query req) products of
              Inl e \<Rightarrow> (respond_error e, products)
            | Inr r \<Rightarrow> ((200, SearchResults r), products))"
  using assms by (simp add: handle_def search_route run_route_def split: sum.splits)

lemma handle_stats:
  assumes "req_method req = GET" and "req_path req = [''api'', ''products'', ''stats'']"
  shows "handle uuid req products = ((200, Statistics (stats_handler products)), products)"
  using assms by (simp add: handle_def stats_route run_route_def)

text \<open>
  C6. On every reachable array: a search whose \<open>q\<close> is absent or the empty string raises
  \<open>ValidationError\<close>, of status 400; a search for a non-empty string \<open>s\<close> returns exactly
  the records whose name or description contains \<open>s\<close> as a case-insensitive substring,
  all of them and in the order of the array, with \<open>s\<close> echoed and their number as count;
  and a search request leaves the array unchanged.
\<close>

theorem search_matches_name_or_description:
  assumes "reachable products"
  shows "(qu ''q'' = None \<or> qu ''q'' = Some (QStr []) \<longrightarrow>
            search_handler qu products = Inl (ValidationError search_message)
            \<and> statusCode (ValidationError search_message) = 400)
       \<and> (qu ''q'' = Some (QStr s) \<and> s \<noteq> [] \<longrightarrow>
            search_handler qu products =
              Inr \<lparr> echoed = QStr s, results = filter (spec_matches s) products,
                    matches = length (filter (spec_matches s) products) \<rparr>)
       \<and> (req_method req = GET \<and> req_path req = [''api'', ''products'', ''search''] \<longrightarrow>
            snd (handle uuid req products) = products)"
proof (intro conjI impI)
  assume "qu ''q'' = None \<or> qu ''q'' = Some (QStr [])"
  then show "search_handler qu products = Inl (ValidationError search_message)"
    by (rule search_handler_missing)
next
  show "statusCode (ValidationError search_message) = 400" by simp
next
  assume "qu ''q'' = Some (QStr s) \<and> s \<noteq> []"
  with reachable_valid [OF assms]
  show "search_handler qu products =
              Inr \<lparr> echoed = QStr s, results = filter (spec_matches s) products,
                    matches = length (filter (spec_matches s) products) \<rparr>"
    by (simp add: search_handler_string)
next
  assume "req_method req = GET \<and> req_path req = [''api'', ''products'', ''search'']"
  then show "snd (handle uuid req products) = products"
    by (simp add: handle_search split: sum.splits)
qed

text \<open>Searching the initial records for LAPTOP, and with no \<open>q\<close>.\<close>

theorem search_matches_name_or_description_witness:
  "reachable initial_products
   \<and> search_handler (map_of [(''q'', QStr ''LAPTOP'')]) initial_products =
       Inr \<lparr> echoed = QStr ''LAPTOP'', results = [laptop], matches = 1 \<rparr>
   \<and> filter (spec_matches ''LAPTOP'') initial_products = [laptop]
   \<and> search_handler Map.empty initial_products = Inl (ValidationError search_message)
   \<and> snd (handle ''u-1'' (search_request (map_of [(''q'', QStr ''LAPTOP'')])) initial_products)
       = initial_products"
proof -
  have run: "search_handler (map_of [(''q'', QStr ''LAPTOP'')]) initial_products =
       Inr \<lparr> echoed = QStr ''LAPTOP'', results = [laptop], matches = 1 \<rparr>"
    by code_simp
  have q: "map_of [(''q'', QStr ''LAPTOP'')] ''q'' = Some (QStr ''LAPTOP'') \<and> ''LAPTOP'' \<noteq> []"
    by simp
  have r: "req_method (search_request (map_of [(''q'', QStr ''LAPTOP'')])) = GET
     \<and> req_path (search_request (map_of [(''q'', QStr ''LAPTOP'')]))
         = [''api'', ''products'', ''search'']"
    by (simp add: search_request_def)
  from search_matches_name_or_description
    [OF reachable.start, of "map_of [(''q'', QStr ''LAPTOP'')]" "''LAPTOP''"
      "search_request (map_of [(''q'', QStr ''LAPTOP'')])" "''u-1''"] q r
  have a: "search_handler (map_of [(''q'', QStr ''LAPTOP'')]) initial_products =
              Inr \<lparr> echoed = QStr ''LAPTOP'',
                    results = filter (spec_matches ''LAPTOP'') initial_products,
                    matches = length (filter (spec_matches ''LAPTOP'') initial_products) \<rparr>"
    and b: "snd (handle ''u-1'' (search_request (map_of [(''q'', QStr ''LAPTOP'')]))
              initial_products) = initial_products"
    by simp_all
  from search_matches_name_or_description [OF reachable.start, of Map.empty]
  have c: "search_handler Map.empty initial_products = Inl (ValidationError search_message)"
    by simp
  from a run have "filter (spec_matches ''LAPTOP'') initial_products = [laptop]" by simp
  with run b c reachable.start show ?thesis by simp
qed

text \<open>
  A parameter \<open>q\<close> that is repeated in the query string arrives as an array, which has no
  method \<^verbatim>\<open>toLowerCase\<close>: the search then ends in a \<open>TypeError\<close>.
\<close>

lemma search_handler_repeated_parameter:
  "search_handler (map_of [(''q'', QArr [QStr ''lap'', QStr ''top''])]) initial_products
     = Inl TypeError"
  by code_simp

section \<open>Route order\<close>

text \<open>
  C9. The paths \<open>/api/products/search\<close> and \<open>/api/products/stats\<close> are claimed by their
  literal routes, although the pattern \<open>/api/products/:id\<close> matches them too (with
  \<open>search\<close> and \<open>stats\<close> as id): the literal routes are registered first. So a GET of
  either path is answered by the search handler or the statistics handler, never by the
  lookup of an id; a search with no \<open>q\<close> is answered 400 \<open>ValidationError\<close>.
\<close>

theorem literal_routes_come_first:
  "find_route routes GET [''api'', ''products'', ''search''] = Some (SearchProducts, [])
   \<and> find_route routes GET [''api'', ''products'', ''stats''] = Some (ProductStats, [])
   \<and> match_path [Lit ''api'', Lit ''products'', Param ''id''] [''api'', ''products'', ''search'']
       = Some [(''id'', ''search'')]
   \<and> match_path [Lit ''api'', Lit ''products'', Param ''id''] [''api'', ''products'', ''stats'']
       = Some [(''id'', ''stats'')]
   \<and> (req_method req = GET \<and> req_path req = [''api'', ''products'', ''search''] \<longrightarrow>
         handle uuid req products =
           (case search_handler (req_query req) products of
              Inl e \<Rightarrow> (respond_error e, products)
            | Inr r \<Rightarrow> ((200, SearchResults r), products)))
   \<and> (req_method req = GET \<and> req_path req = [''api'', ''products'', ''stats''] \<longrightarrow>
         handle uuid req products = ((200, Statistics (stats_handler products)), products))
   \<and> (req_method req = GET \<and> req_path req = [''api'', ''products'', ''search'']
        \<and> req_query req ''q'' = None \<longrightarrow>
         handle uuid req products =
           ((400, Failure ''ValidationError'' search_message 400), products))"
proof (intro conjI impI)
  show "find_route routes GET [''api'', ''products'', ''search''] = Some (SearchProducts, [])"
    by (rule search_route)
  show "find_route routes GET [''api'', ''products'', ''stats''] = Some (ProductStats, [])"
    by (rule stats_route)
  show "match_path [Lit ''api'', Lit ''products'', Param ''id'']
          [''api'', ''products'', ''search''] = Some [(''id'', ''search'')]"
    by simp
  show "match_path [Lit ''api'', Lit ''products'', Param ''id'']
          [''api'', ''products'', ''stats''] = Some [(''id'', ''stats'')]"
    by simp
next
  assume "req_method req = GET \<and> req_path req = [''api'', ''products'', ''search'']"
  then show "handle uuid req products =
           (case search_handler (req_query req) products of
              Inl e \<Rightarrow> (respond_error e, products)
            | Inr r \<Rightarrow> ((200, SearchResults r), products))"
    by (simp add: handle_search)
next
  assume "req_method req = GET \<and> req_path req = [''api'', ''products'', ''stats'']"
  then show "handle uuid req products = ((200, Statistics (stats_handler products)), products)"
    by (simp add: handle_stats)
next
  assume "req_method req = GET \<and> req_path req = [''api'', ''products'', ''search'']
        \<and> req_query req ''q'' = None"
  then show "handle uuid req products =
           ((400, Failure ''ValidationError'' search_message 400), products)"
    by (simp add: handle_search search_handler_missing respond_error_def)
qed

text \<open>
  The two requests on the initial records. Looking up the id \<open>search\<close> would have raised
  \<open>NotFoundError\<close> instead.
\<close>

theorem literal_routes_come_first_witness:
  "req_method (search_request Map.empty) = GET
   \<and> req_path (search_request Map.empty) = [''api'', ''products'', ''search'']
   \<and> req_query (search_request Map.empty) ''q'' = None
   \<and> handle ''u-1'' (search_request Map.empty) initial_products =
       ((400, Failure ''ValidationError'' search_message 400), initial_products)
   \<and> get_handler (Some ''search'') initial_products
       = Inl (NotFoundError ''Product with ID search not found'')
   \<and> req_method stats_request = GET
   \<and> req_path stats_request = [''api'', ''products'', ''stats'']
   \<and> handle ''u-1'' stats_request initial_products =
       ((200, Statistics (stats_handler initial_products)), initial_products)"
proof -
  have r: "req_method (search_request Map.empty) = GET
   \<and> req_path (search_request Map.empty) = [''api'', ''products'', ''search'']
   \<and> req_query (search_request Map.empty) ''q'' = None"
    by (simp add: search_request_def)
  have s: "req_method stats_request = GET
   \<and> req_path stats_request = [''api'', ''products'', ''stats'']"
    by (simp add: stats_request_def)
  have g: "get_handler (Some ''search'') initial_products
       = Inl (NotFoundError ''Product with ID search not found'')"
    by code_simp
  from literal_routes_come_first [of "search_request Map.empty" "''u-1''" initial_products] r
  have a: "handle ''u-1'' (search_request Map.empty) initial_products =
       ((400, Failure ''ValidationError'' search_message 400), initial_products)"
    by blast
  from literal_routes_come_first [of stats_request "''u-1''" initial_products] s
  have b: "handle ''u-1'' stats_request initial_products =
       ((200, Statistics (stats_handler initial_products)), initial_products)"
    by blast
  from r s g a b show ?thesis by simp
qed

end
